theory Spec2Isabelle
  imports Complex_Main "HOL-Library.AList" "HOL-Library.Sublist"
begin

section \<open>Folder synchronisation: source/main.py\<close>

text \<open>
  The program mirrors a source folder onto a replica folder. Everything it does is a
  sequence of calls into \<^verbatim>\<open>os\<close>, \<^verbatim>\<open>os.path\<close>, \<^verbatim>\<open>shutil\<close>, \<^verbatim>\<open>hashlib\<close> and \<^verbatim>\<open>logging\<close>, so
  the embedding has two layers: a model of the file system and of the library calls the
  program makes (sections 1 to 3), and the program's own functions \<^verbatim>\<open>sync_folders\<close>,
  \<^verbatim>\<open>get_folder_hash\<close>, \<^verbatim>\<open>check_for_events\<close> and the body of the \<^verbatim>\<open>while True\<close> loop, written
  over that model line by line (section 4).

  What is modelled: regular files (bytes, modification time, read permission) and
  directories (modification time, permission to list, permission to create and delete
  entries, entries in listing order); path strings as the program builds them, with
  \<^verbatim>\<open>str.replace\<close>, \<^verbatim>\<open>os.path.join\<close>, \<^verbatim>\<open>relpath\<close> and \<^verbatim>\<open>dirname\<close>; the exceptions that the
  library calls raise on such a file system, each with the state in which it is raised.
  What is not: symbolic links, the components \<^verbatim>\<open>.\<close> and \<^verbatim>\<open>..\<close>, a working directory other than
  the root directory, write permission on regular files and search permission on
  directories (both are taken as granted), a full disk, other processes.
  Times are whole seconds, below \<open>2 ^ 53\<close> in absolute value: \<^verbatim>\<open>st_mtime\<close> is then a float
  that holds the time exactly, and the subtraction and the comparisons that the program
  makes on these floats are exact.
\<close>

subsection \<open>1. Exceptions\<close>

datatype py_error =
    FileNotFoundError
  | FileExistsError
  | NotADirectoryError
  | IsADirectoryError
  | PermissionError
  | SameFileError

subsection \<open>2. Path strings\<close>

text \<open>\<^verbatim>\<open>s.split('/')\<close>, and the components of a path: the non-empty pieces.\<close>

fun splitsep :: "string \<Rightarrow> string list" where
  "splitsep [] = [[]]"
| "splitsep (c # cs) =
     (if c = CHR ''/'' then [] # splitsep cs
      else (case splitsep cs of [] \<Rightarrow> [[c]] | x # xs \<Rightarrow> (c # x) # xs))"

definition comps :: "string \<Rightarrow> string list" where
  "comps p = filter (\<lambda>s. s \<noteq> []) (splitsep p)"

text \<open>\<^verbatim>\<open>os.path.join(a, b)\<close> of posixpath, for two arguments.\<close>

definition join :: "string \<Rightarrow> string \<Rightarrow> string" where
  "join a b =
     (if b \<noteq> [] \<and> hd b = CHR ''/'' then b
      else if a = [] \<or> last a = CHR ''/'' then a @ b
      else a @ ''/'' @ b)"

text \<open>
  \<^verbatim>\<open>s.replace(old, new)\<close>: every occurrence of \<open>old\<close>, leftmost first and without overlap;
  an empty \<open>old\<close> matches before every character and at the end.
\<close>

function replace :: "string \<Rightarrow> string \<Rightarrow> string \<Rightarrow> string" where
  "replace [] old new = (if old = [] then new else [])"
| "replace (c # cs) old new =
     (if old = [] then new @ c # replace cs old new
      else if prefix old (c # cs) then new @ replace (drop (length old) (c # cs)) old new
      else c # replace cs old new)"
  by pat_completeness auto
termination
  by (relation "measure (\<lambda>(s, old, new). length s)") auto

text \<open>\<^verbatim>\<open>os.path.basename\<close> and \<^verbatim>\<open>os.path.dirname\<close> of posixpath.\<close>

definition basename :: "string \<Rightarrow> string" where
  "basename p = rev (takeWhile (\<lambda>c. c \<noteq> CHR ''/'') (rev p))"

definition dirname :: "string \<Rightarrow> string" where
  "dirname p =
     (let head = rev (dropWhile (\<lambda>c. c \<noteq> CHR ''/'') (rev p))
      in if filter (\<lambda>c. c \<noteq> CHR ''/'') head \<noteq> []
         then rev (dropWhile (\<lambda>c. c = CHR ''/'') (rev head))
         else head)"

text \<open>
  \<^verbatim>\<open>os.path.relpath(path, start)\<close>: both paths are made absolute and normal, the common
  leading components are dropped, and one \<^verbatim>\<open>..\<close> is put for each remaining component of
  \<open>start\<close>. The working directory is the root directory.
\<close>

fun joinsep :: "string list \<Rightarrow> string" where
  "joinsep [] = []"
| "joinsep [x] = x"
| "joinsep (x # y # ys) = x @ CHR ''/'' # joinsep (y # ys)"

definition relpath :: "string \<Rightarrow> string \<Rightarrow> string" where
  "relpath p start =
     (let sl = comps start;
          pl = comps p;
          i = length (longest_common_prefix sl pl);
          rel = replicate (length sl - i) ''..'' @ drop i pl
      in if rel = [] then ''.'' else joinsep rel)"

subsection \<open>3. The file system and the library calls\<close>

text \<open>
  A regular file has its bytes, its modification time and its read permission. A
  directory has its modification time, its read permission (without it the directory
  cannot be listed), its write permission (without it no entry can be created in it or
  deleted from it) and its entries, in the order in which \<^verbatim>\<open>os.scandir\<close> lists them. A name
  is looked up at its first occurrence.
\<close>

datatype node =
    File string int bool
  | Dir int bool bool "(string \<times> node) list"

fun resolve :: "node \<Rightarrow> string list \<Rightarrow> py_error + node" where
  "resolve n [] = Inr n"
| "resolve (File data m r) (c # cs) = Inl NotADirectoryError"
| "resolve (Dir m r wr es) (c # cs) =
     (case map_of es c of
        None \<Rightarrow> Inl FileNotFoundError
      | Some ch \<Rightarrow> resolve ch cs)"

definition writable :: "node \<Rightarrow> string list \<Rightarrow> bool" where
  "writable n ps = (case resolve n ps of Inr (Dir m r wr es) \<Rightarrow> wr | _ \<Rightarrow> False)"

text \<open>
  The one way in which the tree changes: in the directory at path \<open>ps\<close>, the entry \<open>name\<close>
  is set (replaced in place, or listed last when new) or deleted, and the directory's
  own modification time is set when \<open>mt\<close> gives one.
\<close>

fun set_entry :: "string list \<Rightarrow> string \<Rightarrow> node option \<Rightarrow> int option \<Rightarrow> node \<Rightarrow> node" where
  "set_entry ps name v mt (File data m r) = File data m r"
| "set_entry [] name v mt (Dir m r wr es) =
     Dir (case mt of None \<Rightarrow> m | Some m' \<Rightarrow> m') r wr
         (case v of None \<Rightarrow> AList.delete name es | Some x \<Rightarrow> AList.update name x es)"
| "set_entry (c # cs) name v mt (Dir m r wr es) =
     (case map_of es c of
        None \<Rightarrow> Dir m r wr es
      | Some ch \<Rightarrow> Dir m r wr (AList.update c (set_entry cs name v mt ch) es))"

text \<open>
  Log records carry the paths that the program formats into its messages. The program has
  no message for a failure.
\<close>

datatype 'd event =
    File_copied string string
  | File_removed string
  | Sync_complete int
  | New_file_created string
  | File_modified string
  | Source_hash 'd
  | Folders_synchronized int

text \<open>
  The state of a run: the root directory, the clock, the records passed to
  \<^verbatim>\<open>logging.info\<close> and the lines printed, oldest first.
\<close>

record 'd world =
  fsroot :: node
  clock :: int
  records :: "'d event list"
  console :: "'d event list"

text \<open>
  A call that changes the world returns the new world or raises. What is raised is the
  exception together with the world at that moment: the state in which the run ends when
  nothing catches the exception.
\<close>

type_synonym 'd raised = "py_error \<times> 'd world"

definition logging_info :: "'d event \<Rightarrow> 'd world \<Rightarrow> 'd world" where
  "logging_info e w = w\<lparr>records := records w @ [e]\<rparr>"

definition print :: "'d event \<Rightarrow> 'd world \<Rightarrow> 'd world" where
  "print e w = w\<lparr>console := console w @ [e]\<rparr>"

text \<open>\<^verbatim>\<open>os.stat\<close>, and the tests of \<^verbatim>\<open>os.path\<close>, which answer False where \<^verbatim>\<open>os.stat\<close> raises.\<close>

definition os_stat :: "'d world \<Rightarrow> string \<Rightarrow> py_error + node" where
  "os_stat w p = (if p = [] then Inl FileNotFoundError else resolve (fsroot w) (comps p))"

definition exists :: "'d world \<Rightarrow> string \<Rightarrow> bool" where
  "exists w p = (case os_stat w p of Inl e \<Rightarrow> False | Inr n \<Rightarrow> True)"

definition isfile :: "'d world \<Rightarrow> string \<Rightarrow> bool" where
  "isfile w p = (case os_stat w p of Inr (File data m r) \<Rightarrow> True | _ \<Rightarrow> False)"

definition isdir :: "'d world \<Rightarrow> string \<Rightarrow> bool" where
  "isdir w p = (case os_stat w p of Inr (Dir m r wr es) \<Rightarrow> True | _ \<Rightarrow> False)"

fun st_mtime :: "node \<Rightarrow> int" where
  "st_mtime (File data m r) = m"
| "st_mtime (Dir m r wr es) = m"

definition getmtime :: "'d world \<Rightarrow> string \<Rightarrow> py_error + int" where
  "getmtime w p = (case os_stat w p of Inl e \<Rightarrow> Inl e | Inr n \<Rightarrow> Inr (st_mtime n))"

text \<open>
  \<^verbatim>\<open>os.listdir\<close>: the names of a directory, in listing order; PermissionError when the
  directory may not be read.
\<close>

definition listdir :: "'d world \<Rightarrow> string \<Rightarrow> py_error + string list" where
  "listdir w p =
     (case os_stat w p of
        Inl e \<Rightarrow> Inl e
      | Inr (File data m r) \<Rightarrow> Inl NotADirectoryError
      | Inr (Dir m r wr es) \<Rightarrow> (if r then Inr (map fst es) else Inl PermissionError))"

text \<open>
  \<^verbatim>\<open>os.walk(top)\<close>, top-down and with the default \<^verbatim>\<open>onerror=None\<close>: each directory with the
  names of its subdirectories and of its files, then the subdirectories in that order.
  When \<^verbatim>\<open>scandir\<close> raises on a directory, \<^verbatim>\<open>os.walk\<close> drops the error and yields nothing for
  that directory: a directory that may not be read is named among the subdirectories of
  its parent and contributes no triple, and a top that is no directory yields nothing.
\<close>

fun is_dir_entry :: "string \<times> node \<Rightarrow> bool" where
  "is_dir_entry (name, Dir m r wr es) = True"
| "is_dir_entry (name, File data m r) = False"

fun walk_node :: "string \<Rightarrow> node \<Rightarrow> (string \<times> string list \<times> string list) list" where
  "walk_node t (File data m r) = []"
| "walk_node t (Dir m r wr es) =
     (if r
      then (t, map fst (filter is_dir_entry es), map fst (filter (\<lambda>e. \<not> is_dir_entry e) es))
           # concat (map (\<lambda>e. walk_node (join t (fst e)) (snd e)) (filter is_dir_entry es))
      else [])"

definition os_walk :: "'d world \<Rightarrow> string \<Rightarrow> (string \<times> string list \<times> string list) list" where
  "os_walk w t = (case os_stat w t of Inl e \<Rightarrow> [] | Inr n \<Rightarrow> walk_node t n)"

text \<open>
  \<^verbatim>\<open>os.makedirs(p, exist_ok=True)\<close>: the missing directories along \<open>p\<close> are made from the top
  down, each by \<^verbatim>\<open>os.mkdir\<close>, which needs write permission on the parent; a regular file in
  the way raises. The directories made before an exception stay.
\<close>

fun makedirs_from :: "string list \<Rightarrow> string list \<Rightarrow> 'd world \<Rightarrow> 'd raised + 'd world" where
  "makedirs_from pre [] w = Inr w"
| "makedirs_from pre (c # cs) w =
     (case resolve (fsroot w) (pre @ [c]) of
        Inr (Dir m r wr es) \<Rightarrow> makedirs_from (pre @ [c]) cs w
      | Inr (File data m r) \<Rightarrow> Inl (if cs = [] then FileExistsError else NotADirectoryError, w)
      | Inl e \<Rightarrow>
          (if e \<noteq> FileNotFoundError then Inl (e, w)
           else if \<not> writable (fsroot w) pre then Inl (PermissionError, w)
           else makedirs_from (pre @ [c]) cs
                  (w\<lparr>fsroot := set_entry pre c (Some (Dir (clock w) True True [])) (Some (clock w))
                               (fsroot w)\<rparr>)))"

definition makedirs :: "string \<Rightarrow> 'd world \<Rightarrow> 'd raised + 'd world" where
  "makedirs p w = (if p = [] then Inl (FileNotFoundError, w) else makedirs_from [] (comps p) w)"

text \<open>
  \<^verbatim>\<open>os.remove\<close>: unlinks a regular file, which needs write permission on the directory that
  holds it; that directory is modified now.
\<close>

definition os_remove :: "string \<Rightarrow> 'd world \<Rightarrow> 'd raised + 'd world" where
  "os_remove p w =
     (let cs = comps p in
      if cs = [] then Inl (if p = [] then FileNotFoundError else IsADirectoryError, w)
      else (case resolve (fsroot w) (butlast cs) of
              Inl e \<Rightarrow> Inl (e, w)
            | Inr (File data m r) \<Rightarrow> Inl (NotADirectoryError, w)
            | Inr (Dir m r wr es) \<Rightarrow>
                (case map_of es (last cs) of
                   None \<Rightarrow> Inl (FileNotFoundError, w)
                 | Some n \<Rightarrow>
                     (if \<not> wr then Inl (PermissionError, w)
                      else (case n of
                              Dir m' r' wr' es' \<Rightarrow> Inl (IsADirectoryError, w)
                            | File data m' r' \<Rightarrow>
                                Inr (w\<lparr>fsroot := set_entry (butlast cs) (last cs) None
                                                  (Some (clock w)) (fsroot w)\<rparr>))))))"

text \<open>
  \<^verbatim>\<open>open(p, 'rb')\<close> with the bytes it will read, and \<^verbatim>\<open>open(p, 'wb')\<close> with the bytes written
  before the file is closed: a new file needs write permission on its directory, is listed
  last there and is readable; an existing file is truncated and keeps its place and its
  mode.
\<close>

definition open_rb :: "'d world \<Rightarrow> string \<Rightarrow> py_error + string" where
  "open_rb w p =
     (case os_stat w p of
        Inl e \<Rightarrow> Inl e
      | Inr (Dir m r wr es) \<Rightarrow> Inl IsADirectoryError
      | Inr (File data m r) \<Rightarrow> (if r then Inr data else Inl PermissionError))"

definition write_file :: "string \<Rightarrow> string \<Rightarrow> 'd world \<Rightarrow> 'd raised + 'd world" where
  "write_file p data w =
     (let cs = comps p in
      if cs = [] then Inl (if p = [] then FileNotFoundError else IsADirectoryError, w)
      else (case resolve (fsroot w) (butlast cs) of
              Inl e \<Rightarrow> Inl (e, w)
            | Inr (File data' m r) \<Rightarrow> Inl (NotADirectoryError, w)
            | Inr (Dir m r wr es) \<Rightarrow>
                (case map_of es (last cs) of
                   None \<Rightarrow>
                     (if \<not> wr then Inl (PermissionError, w)
                      else Inr (w\<lparr>fsroot := set_entry (butlast cs) (last cs)
                                     (Some (File data (clock w) True)) (Some (clock w)) (fsroot w)\<rparr>))
                 | Some (Dir m' r' wr' es') \<Rightarrow> Inl (IsADirectoryError, w)
                 | Some (File data' m' r') \<Rightarrow>
                     Inr (w\<lparr>fsroot := set_entry (butlast cs) (last cs)
                               (Some (File data (clock w) r')) None (fsroot w)\<rparr>))))"

text \<open>
  \<^verbatim>\<open>shutil.copystat(src, dst)\<close>: the modification time and the mode of \<open>src\<close> are put on
  \<open>dst\<close>.
\<close>

fun st_readable :: "node \<Rightarrow> bool" where
  "st_readable (File data m r) = r"
| "st_readable (Dir m r wr es) = r"

fun st_writable :: "node \<Rightarrow> bool" where
  "st_writable (File data m r) = True"
| "st_writable (Dir m r wr es) = wr"

fun with_stat :: "node \<Rightarrow> node \<Rightarrow> node" where
  "with_stat sn (File data m r) = File data (st_mtime sn) (st_readable sn)"
| "with_stat sn (Dir m r wr es) = Dir (st_mtime sn) (st_readable sn) (st_writable sn) es"

definition copystat :: "string \<Rightarrow> string \<Rightarrow> 'd world \<Rightarrow> 'd raised + 'd world" where
  "copystat src dst w =
     (case os_stat w src of
        Inl e \<Rightarrow> Inl (e, w)
      | Inr sn \<Rightarrow>
          (case os_stat w dst of
             Inl e \<Rightarrow> Inl (e, w)
           | Inr dn \<Rightarrow>
               (let cs = comps dst in
                if cs = [] then Inr (w\<lparr>fsroot := with_stat sn dn\<rparr>)
                else Inr (w\<lparr>fsroot := set_entry (butlast cs) (last cs)
                                (Some (with_stat sn dn)) None (fsroot w)\<rparr>))))"

text \<open>
  \<^verbatim>\<open>shutil.copyfile(src, dst)\<close> copies the bytes; \<^verbatim>\<open>shutil.copy2(src, dst)\<close> copies into \<open>dst\<close>
  when that is a directory, and calls \<^verbatim>\<open>copystat\<close> after \<^verbatim>\<open>copyfile\<close>.
\<close>

definition samefile :: "'d world \<Rightarrow> string \<Rightarrow> string \<Rightarrow> bool" where
  "samefile w a b = (exists w a \<and> exists w b \<and> comps a = comps b)"

definition copyfile :: "string \<Rightarrow> string \<Rightarrow> 'd world \<Rightarrow> 'd raised + 'd world" where
  "copyfile src dst w =
     (if samefile w src dst then Inl (SameFileError, w)
      else (case open_rb w src of
              Inl e \<Rightarrow> Inl (e, w)
            | Inr data \<Rightarrow> write_file dst data w))"

definition copy2 :: "string \<Rightarrow> string \<Rightarrow> 'd world \<Rightarrow> 'd raised + 'd world" where
  "copy2 src dst w =
     (let dst' = (if isdir w dst then join dst (basename src) else dst)
      in (case copyfile src dst' w of
            Inl x \<Rightarrow> Inl x
          | Inr w' \<Rightarrow> copystat src dst' w'))"

subsection \<open>4. The program\<close>

text \<open>
  A \<^verbatim>\<open>for\<close> loop whose body may raise. The program has no \<^verbatim>\<open>try\<close> statement, so the first
  exception ends the loop and is what the loop raises.
\<close>

fun for_each :: "'a list \<Rightarrow> ('a \<Rightarrow> 's \<Rightarrow> 'x + 's) \<Rightarrow> 's \<Rightarrow> 'x + 's" where
  "for_each [] body s = Inr s"
| "for_each (x # xs) body s =
     (case body x s of
        Inl e \<Rightarrow> Inl e
      | Inr s' \<Rightarrow> for_each xs body s')"

text \<open>
  \<^verbatim>\<open>sync_folders\<close>, lines 45 to 58: the test of line 54 and the body of the inner loop of the
  first walk. The state is the world and the flag \<^verbatim>\<open>new_files_created\<close>.
\<close>

definition is_stale :: "'d world \<Rightarrow> string \<Rightarrow> string \<Rightarrow> py_error + bool" where
  "is_stale w source_file replica_file =
     (if \<not> exists w replica_file then Inr True
      else (case os_stat w source_file of
              Inl e \<Rightarrow> Inl e
            | Inr sn \<Rightarrow>
                (case os_stat w replica_file of
                   Inl e \<Rightarrow> Inl e
                 | Inr rn \<Rightarrow> Inr (st_mtime sn - st_mtime rn > 1))))"

definition copy_step :: "string \<Rightarrow> string \<Rightarrow> string \<Rightarrow> 'd world \<times> bool \<Rightarrow>
    'd raised + 'd world \<times> bool" where
  "copy_step root_dir replica_root file s =
     (let source_file = join root_dir file;
          replica_file = join replica_root file
      in (case is_stale (fst s) source_file replica_file of
            Inl e \<Rightarrow> Inl (e, fst s)
          | Inr stale \<Rightarrow>
              (if stale
               then (case copy2 source_file replica_file (fst s) of
                       Inl x \<Rightarrow> Inl x
                     | Inr w' \<Rightarrow>
                         Inr (print (File_copied source_file replica_file)
                                (logging_info (File_copied source_file replica_file) w'), True))
               else Inr s)))"

definition copy_dir :: "string \<Rightarrow> string \<Rightarrow> string \<times> string list \<times> string list \<Rightarrow>
    'd world \<times> bool \<Rightarrow> 'd raised + 'd world \<times> bool" where
  "copy_dir source_path replica_path entry s =
     (case entry of (root_dir, dirs, files) \<Rightarrow>
        (let replica_root = replace root_dir source_path replica_path
         in (case makedirs replica_root (fst s) of
               Inl x \<Rightarrow> Inl x
             | Inr w' \<Rightarrow> for_each files (copy_step root_dir replica_root) (w', snd s))))"

text \<open>Lines 60 to 70: the second walk, over the replica.\<close>

definition remove_step :: "string \<Rightarrow> string \<Rightarrow> string \<Rightarrow> 'd world \<Rightarrow> 'd raised + 'd world" where
  "remove_step source_root replica_root file w =
     (let source_file = join source_root file;
          replica_file = join replica_root file
      in if \<not> exists w source_file
         then (case os_remove replica_file w of
                 Inl x \<Rightarrow> Inl x
               | Inr w' \<Rightarrow> Inr (print (File_removed replica_file) (logging_info (File_removed replica_file) w')))
         else Inr w)"

definition remove_dir :: "string \<Rightarrow> string \<Rightarrow> string \<times> string list \<times> string list \<Rightarrow>
    'd world \<Rightarrow> 'd raised + 'd world" where
  "remove_dir source_path replica_path entry w =
     (case entry of (replica_root, dirs, files) \<Rightarrow>
        (let source_root = replace replica_root replica_path source_path
         in for_each files (remove_step source_root replica_root) w))"

definition sync_folders :: "string \<Rightarrow> string \<Rightarrow> 'd world \<Rightarrow> 'd raised + 'd world" where
  "sync_folders source_path replica_path w =
     (case for_each (os_walk w source_path) (copy_dir source_path replica_path) (w, False) of
        Inl x \<Rightarrow> Inl x
      | Inr (w1, new_files_created) \<Rightarrow>
          (case for_each (os_walk w1 replica_path) (remove_dir source_path replica_path) w1 of
             Inl x \<Rightarrow> Inl x
           | Inr w2 \<Rightarrow>
               (if new_files_created
                then Inr (print (Sync_complete (clock w2)) (logging_info (Sync_complete (clock w2)) w2))
                else Inr w2)))"

text \<open>
  \<^verbatim>\<open>os.walk\<close> is a generator: it lists a directory when the loop reaches it. The model lists
  the tree when the loop starts. The two agree on every run in which no directory is made,
  removed or renamed inside the walked tree before the walk lists it: the first loop of
  \<^verbatim>\<open>sync_folders\<close> and the fallback loop write into the replica while they walk the source,
  and the second loop of \<^verbatim>\<open>sync_folders\<close> only unlinks regular files of the directory it has
  just listed.
\<close>

text \<open>
  \<^verbatim>\<open>get_folder_hash\<close>. \<^verbatim>\<open>hashlib.md5\<close> is a library function and a parameter here: the hash
  object is the bytes passed to \<^verbatim>\<open>update\<close> so far, and \<^verbatim>\<open>hexdigest\<close> applies \<open>md5\<close> to them.
  \<open>read_chunks f h\<close> is the \<^verbatim>\<open>while True\<close> loop of lines 95 to 99 on a file with bytes \<open>f\<close>
  left to read. The function changes nothing, so what it raises is the exception alone.
\<close>

function read_chunks :: "string \<Rightarrow> string \<Rightarrow> string" where
  "read_chunks f h =
     (let data = take 4096 f
      in if data = [] then h else read_chunks (drop 4096 f) (h @ data))"
  by pat_completeness auto
termination
  by (relation "measure (\<lambda>(f, h). length f)") auto

declare read_chunks.simps [simp del]

definition hash_file :: "'e world \<Rightarrow> string \<Rightarrow> string \<Rightarrow> string \<Rightarrow> py_error + string" where
  "hash_file w root_dir file h =
     (case open_rb w (join root_dir file) of
        Inl e \<Rightarrow> Inl e
      | Inr f \<Rightarrow> Inr (read_chunks f h))"

definition hash_dir :: "'e world \<Rightarrow> string \<times> string list \<times> string list \<Rightarrow> string \<Rightarrow> py_error + string" where
  "hash_dir w entry h =
     (case entry of (root_dir, dirs, files) \<Rightarrow> for_each files (hash_file w root_dir) h)"

definition get_folder_hash :: "(string \<Rightarrow> 'd) \<Rightarrow> 'e world \<Rightarrow> string \<Rightarrow> py_error + 'd" where
  "get_folder_hash md5 w folder =
     (case for_each (os_walk w folder) (hash_dir w) [] of
        Inl e \<Rightarrow> Inl e
      | Inr h \<Rightarrow> Inr (md5 h))"

text \<open>\<^verbatim>\<open>check_for_events\<close>. The state of its loops is the world and the dictionary \<^verbatim>\<open>events\<close>.\<close>

record events =
  new_file :: "string list"
  file_modified :: "string list"
  file_removed :: "string list"

definition source_event :: "string \<Rightarrow> string \<Rightarrow> string \<Rightarrow> 'd world \<times> events \<Rightarrow>
    'd raised + 'd world \<times> events" where
  "source_event source_path replica_path filename s =
     (let file_path = join source_path filename
      in if isfile (fst s) file_path
         then (case listdir (fst s) replica_path of
                 Inl e \<Rightarrow> Inl (e, fst s)
               | Inr names \<Rightarrow>
                   (if filename \<notin> set names
                    then Inr (print (New_file_created file_path)
                                (logging_info (New_file_created file_path) (fst s)),
                              (snd s)\<lparr>new_file := new_file (snd s) @ [filename]\<rparr>)
                    else (case getmtime (fst s) file_path of
                            Inl e \<Rightarrow> Inl (e, fst s)
                          | Inr source_mtime \<Rightarrow>
                              (case getmtime (fst s) (join replica_path filename) of
                                 Inl e \<Rightarrow> Inl (e, fst s)
                               | Inr replica_mtime \<Rightarrow>
                                   (if source_mtime > replica_mtime
                                    then Inr (print (File_modified file_path)
                                                (logging_info (File_modified file_path) (fst s)),
                                              (snd s)\<lparr>file_modified := file_modified (snd s) @ [filename]\<rparr>)
                                    else Inr s)))))
         else Inr s)"

definition replica_event :: "string \<Rightarrow> string \<Rightarrow> string \<Rightarrow> 'd world \<times> events \<Rightarrow>
    'd raised + 'd world \<times> events" where
  "replica_event source_path replica_path filename s =
     (let file_path = join replica_path filename
      in if isfile (fst s) file_path
         then (case listdir (fst s) source_path of
                 Inl e \<Rightarrow> Inl (e, fst s)
               | Inr names \<Rightarrow>
                   (if filename \<notin> set names
                    then Inr (fst s, (snd s)\<lparr>file_removed := file_removed (snd s) @ [filename]\<rparr>)
                    else Inr s))
         else Inr s)"

definition detect_events :: "string \<Rightarrow> string \<Rightarrow> 'd world \<Rightarrow> 'd raised + 'd world \<times> events" where
  "detect_events source_path replica_path w =
     (case listdir w source_path of
        Inl e \<Rightarrow> Inl (e, w)
      | Inr source_names \<Rightarrow>
          (case for_each source_names (source_event source_path replica_path)
                  (w, \<lparr>new_file = [], file_modified = [], file_removed = []\<rparr>) of
             Inl x \<Rightarrow> Inl x
           | Inr s \<Rightarrow>
               (case listdir (fst s) replica_path of
                  Inl e \<Rightarrow> Inl (e, fst s)
                | Inr replica_names \<Rightarrow>
                    for_each replica_names (replica_event source_path replica_path) s)))"

definition check_for_events :: "(string \<Rightarrow> 'd) \<Rightarrow> string \<Rightarrow> string \<Rightarrow> 'd world \<Rightarrow>
    'd raised + 'd world" where
  "check_for_events md5 source_path replica_path w =
     (case detect_events source_path replica_path w of
        Inl x \<Rightarrow> Inl x
      | Inr (w1, ev) \<Rightarrow>
          (if new_file ev \<noteq> [] \<or> file_modified ev \<noteq> [] \<or> file_removed ev \<noteq> []
           then (case sync_folders source_path replica_path w1 of
                   Inl x \<Rightarrow> Inl x
                 | Inr w2 \<Rightarrow>
                     (case get_folder_hash md5 w2 source_path of
                        Inl e \<Rightarrow> Inl (e, w2)
                      | Inr source_hash \<Rightarrow> Inr (logging_info (Source_hash source_hash) w2)))
           else Inr w1))"

text \<open>
  The body of the \<^verbatim>\<open>while True\<close> loop, lines 193 to 215: one cycle. \<open>recopy_step\<close> is the
  body of the fallback loop of lines 202 to 209. \<^verbatim>\<open>logging.basicConfig\<close> sets the level
  INFO, so the record of \<^verbatim>\<open>logging.debug\<close> is dropped. An exception that leaves the cycle
  ends the program: nothing outside the loop catches it.
\<close>

definition recopy_step :: "string \<Rightarrow> string \<Rightarrow> string \<Rightarrow> string \<Rightarrow> 'd world \<Rightarrow> 'd raised + 'd world" where
  "recopy_step source_path replica_path root_dir file w =
     (let source_file = join root_dir file;
          replica_file = join replica_path (relpath source_file source_path)
      in (case (if exists w replica_file then os_remove replica_file w else Inr w) of
            Inl x \<Rightarrow> Inl x
          | Inr w1 \<Rightarrow>
              (case makedirs (dirname replica_file) w1 of
                 Inl x \<Rightarrow> Inl x
               | Inr w2 \<Rightarrow> copyfile source_file replica_file w2)))"

definition recopy_dir :: "string \<Rightarrow> string \<Rightarrow> string \<times> string list \<times> string list \<Rightarrow>
    'd world \<Rightarrow> 'd raised + 'd world" where
  "recopy_dir source_path replica_path entry w =
     (case entry of (root_dir, dirs, files) \<Rightarrow>
        for_each files (recopy_step source_path replica_path root_dir) w)"

definition cycle :: "(string \<Rightarrow> 'd) \<Rightarrow> string \<Rightarrow> string \<Rightarrow> string \<Rightarrow> 'd world \<Rightarrow> 'd raised + 'd world" where
  "cycle md5 log_level source_path replica_path w =
     (case check_for_events md5 source_path replica_path w of
        Inl x \<Rightarrow> Inl x
      | Inr w1 \<Rightarrow>
          (case get_folder_hash md5 w1 source_path of
             Inl e \<Rightarrow> Inl (e, w1)
           | Inr source_hash \<Rightarrow>
               (case get_folder_hash md5 w1 replica_path of
                  Inl e \<Rightarrow> Inl (e, w1)
                | Inr replica_hash \<Rightarrow>
                    (case (if source_hash \<noteq> replica_hash
                           then for_each (os_walk w1 source_path) (recopy_dir source_path replica_path) w1
                           else Inr w1) of
                       Inl x \<Rightarrow> Inl x
                     | Inr w2 \<Rightarrow>
                         (if log_level = ''DEBUG'' then Inr w2
                          else Inr (logging_info (Folders_synchronized (clock w2)) w2))))))"

subsection \<open>5. Notions of the specification, and worlds to run the program on\<close>

text \<open>
  The bytes of the regular files of a folder, in the order in which \<^verbatim>\<open>os.walk\<close> reaches them.
\<close>

definition file_bytes :: "'e world \<Rightarrow> string \<Rightarrow> string" where
  "file_bytes w p = (case os_stat w p of Inr (File data m r) \<Rightarrow> data | _ \<Rightarrow> [])"

definition dir_bytes :: "'e world \<Rightarrow> string \<times> string list \<times> string list \<Rightarrow> string" where
  "dir_bytes w entry = (case entry of (root_dir, dirs, files) \<Rightarrow>
      concat (map (\<lambda>file. file_bytes w (join root_dir file)) files))"

definition walk_bytes :: "'e world \<Rightarrow> string \<Rightarrow> string" where
  "walk_bytes w folder = concat (map (dir_bytes w) (os_walk w folder))"

text \<open>
  A world with two folders that hold the same bytes in walk order: \<^verbatim>\<open>/p\<close> has one file,
  \<^verbatim>\<open>/q\<close> has an empty directory and a directory with two files.
\<close>

definition two_trees :: "'e world" where
  "two_trees = \<lparr>fsroot = Dir 0 True True
       [(''p'', Dir 0 True True [(''a'', File ''xy'' 1 True)]),
        (''q'', Dir 0 True True
           [(''e'', Dir 0 True True []),
            (''d'', Dir 0 True True [(''b'', File ''x'' 2 True), (''c'', File ''y'' 3 True)])])],
     clock = 0, records = [], console = []\<rparr>"

text \<open>
  A digest function without collisions, for runs on the worlds below. Every run that needs
  two streams told apart is stated for any digest function that tells them apart, and this
  one shows that there is such a function.
\<close>

definition stream_digest :: "string \<Rightarrow> string" where
  "stream_digest bytes = bytes"

text \<open>
  \<open>drifted\<close>: the source \<^verbatim>\<open>/s\<close> holds one file, the replica \<^verbatim>\<open>/r\<close> holds the same file with the
  same time and a file \<^verbatim>\<open>d/y\<close> that the source does not have. \<open>drifted_after\<close> and
  \<open>drifted_again\<close> are the worlds after one cycle at time 500 and after a second cycle at
  time 600.
\<close>

definition drifted :: "'d world" where
  "drifted = \<lparr>fsroot = Dir 0 True True
       [(''s'', Dir 0 True True [(''a'', File ''x'' 100 True)]),
        (''r'', Dir 0 True True
           [(''a'', File ''x'' 100 True), (''d'', Dir 0 True True [(''y'', File ''hi'' 100 True)])])],
     clock = 500, records = [], console = []\<rparr>"

definition drifted_after :: "'d world" where
  "drifted_after = \<lparr>fsroot = Dir 0 True True
       [(''s'', Dir 0 True True [(''a'', File ''x'' 100 True)]),
        (''r'', Dir 500 True True
           [(''d'', Dir 0 True True [(''y'', File ''hi'' 100 True)]), (''a'', File ''x'' 500 True)])],
     clock = 500, records = [Folders_synchronized 500], console = []\<rparr>"

definition drifted_again :: "'d world" where
  "drifted_again = \<lparr>fsroot = Dir 0 True True
       [(''s'', Dir 0 True True [(''a'', File ''x'' 100 True)]),
        (''r'', Dir 600 True True
           [(''d'', Dir 0 True True [(''y'', File ''hi'' 100 True)]), (''a'', File ''x'' 600 True)])],
     clock = 600, records = [Folders_synchronized 500, Folders_synchronized 600], console = []\<rparr>"

text \<open>
  \<open>shared_prefix\<close>: the source is given as \<^verbatim>\<open>/xs/\<close> and the replica as \<^verbatim>\<open>/x\<close>; the source has a
  new file \<^verbatim>\<open>t\<close> and a subdirectory \<^verbatim>\<open>s\<close> with an empty file \<^verbatim>\<open>f\<close>.
\<close>

definition shared_prefix :: "'d world" where
  "shared_prefix = \<lparr>fsroot = Dir 0 True True
       [(''xs'', Dir 0 True True
           [(''s'', Dir 0 True True [(''f'', File [] 100 True)]), (''t'', File ''new'' 100 True)]),
        (''x'', Dir 0 True True [])],
     clock = 500, records = [], console = []\<rparr>"

definition shared_prefix_after :: "'d world" where
  "shared_prefix_after = \<lparr>fsroot = Dir 0 True True
       [(''xs'', Dir 500 True True
           [(''s'', Dir 0 True True [(''f'', File [] 100 True)]), (''t'', File ''new'' 100 True),
            (''f'', File [] 100 True)]),
        (''x'', Dir 500 True True [(''t'', File ''new'' 100 True)])],
     clock = 500, records = [], console = []\<rparr>"

text \<open>\<open>no_replica\<close>: the replica folder \<^verbatim>\<open>/r\<close> does not exist.\<close>

definition no_replica :: "'d world" where
  "no_replica = \<lparr>fsroot = Dir 0 True True [(''s'', Dir 0 True True [(''a'', File ''x'' 100 True)])],
     clock = 500, records = [], console = []\<rparr>"

text \<open>
  \<open>orphan\<close>: the source holds \<^verbatim>\<open>a\<close> and \<^verbatim>\<open>sub/f\<close>, and the replica holds both with the same
  bytes and times. The replica also holds three files that have no counterpart in the
  source, \<^verbatim>\<open>gone\<close>, \<^verbatim>\<open>d/old\<close> and the empty file \<^verbatim>\<open>rub/f\<close>, in two directories \<^verbatim>\<open>d\<close> and \<^verbatim>\<open>rub\<close>
  that the source does not have. \<open>orphan_after\<close> is the tree that the cycle leaves.
\<close>

definition orphan :: "'d world" where
  "orphan = \<lparr>fsroot = Dir 0 True True
       [(''s'', Dir 0 True True
           [(''a'', File ''x'' 100 True), (''sub'', Dir 0 True True [(''f'', File ''y'' 100 True)])]),
        (''r'', Dir 0 True True
           [(''a'', File ''x'' 100 True), (''gone'', File ''z'' 50 True),
            (''sub'', Dir 0 True True [(''f'', File ''y'' 100 True)]),
            (''rub'', Dir 0 True True [(''f'', File [] 100 True)]),
            (''d'', Dir 0 True True [(''old'', File ''o'' 10 True)])])],
     clock = 500, records = [], console = []\<rparr>"

definition orphan_after :: "'d world" where
  "orphan_after = \<lparr>fsroot = Dir 0 True True
       [(''s'', Dir 0 True True
           [(''a'', File ''x'' 100 True), (''sub'', Dir 0 True True [(''f'', File ''y'' 100 True)])]),
        (''r'', Dir 500 True True
           [(''a'', File ''x'' 100 True),
            (''sub'', Dir 0 True True [(''f'', File ''y'' 100 True)]),
            (''rub'', Dir 0 True True [(''f'', File [] 100 True)]),
            (''d'', Dir 500 True True [])])],
     clock = 500, records = [], console = []\<rparr>"

text \<open>
  \<open>tolerance\<close>: every source file has its counterpart in the replica, with the same bytes.
  The replica's \<^verbatim>\<open>a\<close> is 1 second older than the source's, its \<^verbatim>\<open>b\<close> is 2 seconds older, and
  its \<^verbatim>\<open>sub/f\<close> has the time of the source's. \<open>tolerance_after\<close> is the world that
  \<^verbatim>\<open>sync_folders\<close> leaves.
\<close>

definition tolerance :: "'d world" where
  "tolerance = \<lparr>fsroot = Dir 0 True True
       [(''s'', Dir 0 True True
           [(''a'', File ''x'' 101 True), (''b'', File ''y'' 102 True),
            (''sub'', Dir 0 True True [(''f'', File ''z'' 100 True)])]),
        (''r'', Dir 0 True True
           [(''a'', File ''x'' 100 True), (''b'', File ''y'' 100 True),
            (''sub'', Dir 0 True True [(''f'', File ''z'' 100 True)])])],
     clock = 500, records = [], console = []\<rparr>"

definition tolerance_after :: "'d world" where
  "tolerance_after = \<lparr>fsroot = Dir 0 True True
       [(''s'', Dir 0 True True
           [(''a'', File ''x'' 101 True), (''b'', File ''y'' 102 True),
            (''sub'', Dir 0 True True [(''f'', File ''z'' 100 True)])]),
        (''r'', Dir 500 True True
           [(''a'', File ''x'' 100 True), (''b'', File ''y'' 102 True),
            (''sub'', Dir 0 True True [(''f'', File ''z'' 100 True)]),
            (''rub'', Dir 500 True True [(''f'', File ''z'' 100 True)])])],
     clock = 500,
     records = [File_copied ''/s/b'' ''/r/b'', File_copied ''/s/sub/f'' ''/r/rub/f'', Sync_complete 500],
     console = [File_copied ''/s/b'' ''/r/b'', File_copied ''/s/sub/f'' ''/r/rub/f'', Sync_complete 500]\<rparr>"

text \<open>
  \<open>unreadable\<close>: the source has three new files, and the second has no read permission.
  \<open>unreadable_seen\<close> is the world when \<^verbatim>\<open>check_for_events\<close> calls \<^verbatim>\<open>sync_folders\<close>, and
  \<open>unreadable_failed\<close> the world in which the cycle ends.
\<close>

definition unreadable :: "'d world" where
  "unreadable = \<lparr>fsroot = Dir 0 True True
       [(''s'', Dir 0 True True
           [(''a'', File ''x'' 100 True), (''b'', File ''y'' 100 False), (''c'', File ''z'' 100 True)]),
        (''r'', Dir 0 True True [])],
     clock = 500, records = [], console = []\<rparr>"

definition unreadable_seen :: "'d world" where
  "unreadable_seen = \<lparr>fsroot = Dir 0 True True
       [(''s'', Dir 0 True True
           [(''a'', File ''x'' 100 True), (''b'', File ''y'' 100 False), (''c'', File ''z'' 100 True)]),
        (''r'', Dir 0 True True [])],
     clock = 500,
     records = [New_file_created ''/s/a'', New_file_created ''/s/b'', New_file_created ''/s/c''],
     console = [New_file_created ''/s/a'', New_file_created ''/s/b'', New_file_created ''/s/c'']\<rparr>"

definition unreadable_failed :: "'d world" where
  "unreadable_failed = \<lparr>fsroot = Dir 0 True True
       [(''s'', Dir 0 True True
           [(''a'', File ''x'' 100 True), (''b'', File ''y'' 100 False), (''c'', File ''z'' 100 True)]),
        (''r'', Dir 500 True True [(''a'', File ''x'' 100 True)])],
     clock = 500,
     records = [New_file_created ''/s/a'', New_file_created ''/s/b'', New_file_created ''/s/c'',
                File_copied ''/s/a'' ''/r/a''],
     console = [New_file_created ''/s/a'', New_file_created ''/s/b'', New_file_created ''/s/c'',
                File_copied ''/s/a'' ''/r/a'']\<rparr>"

text \<open>
  \<open>locked\<close>: the replica has three files that the source does not have: \<^verbatim>\<open>gone\<close>, then
  \<^verbatim>\<open>d/old\<close> in a directory without write permission, then \<^verbatim>\<open>e/late\<close>. \<open>locked_failed\<close> is the
  world in which the cycle ends.
\<close>

definition locked :: "'d world" where
  "locked = \<lparr>fsroot = Dir 0 True True
       [(''s'', Dir 0 True True [(''a'', File ''x'' 100 True)]),
        (''r'', Dir 0 True True
           [(''a'', File ''x'' 100 True), (''gone'', File ''z'' 50 True),
            (''d'', Dir 0 True False [(''old'', File ''o'' 10 True)]),
            (''e'', Dir 0 True True [(''late'', File ''l'' 10 True)])])],
     clock = 500, records = [], console = []\<rparr>"

definition locked_failed :: "'d world" where
  "locked_failed = \<lparr>fsroot = Dir 0 True True
       [(''s'', Dir 0 True True [(''a'', File ''x'' 100 True)]),
        (''r'', Dir 500 True True
           [(''a'', File ''x'' 100 True),
            (''d'', Dir 0 True False [(''old'', File ''o'' 10 True)]),
            (''e'', Dir 0 True True [(''late'', File ''l'' 10 True)])])],
     clock = 500, records = [File_removed ''/r/gone''], console = [File_removed ''/r/gone'']\<rparr>"

text \<open>
  \<open>hidden\<close>: the source has a new file \<^verbatim>\<open>n\<close> and a directory \<^verbatim>\<open>priv\<close> without read permission
  that holds a file \<^verbatim>\<open>k\<close>. \<open>hidden_after\<close> is the tree that the cycle leaves.
\<close>

definition hidden :: "'d world" where
  "hidden = \<lparr>fsroot = Dir 0 True True
       [(''s'', Dir 0 True True
           [(''n'', File ''new'' 100 True), (''priv'', Dir 0 False True [(''k'', File ''key'' 100 True)])]),
        (''r'', Dir 0 True True [])],
     clock = 500, records = [], console = []\<rparr>"

definition hidden_after :: "'d world" where
  "hidden_after = \<lparr>fsroot = Dir 0 True True
       [(''s'', Dir 0 True True
           [(''n'', File ''new'' 100 True), (''priv'', Dir 0 False True [(''k'', File ''key'' 100 True)])]),
        (''r'', Dir 500 True True [(''n'', File ''new'' 100 True)])],
     clock = 500, records = [], console = []\<rparr>"

section \<open>Properties\<close>

subsection \<open>The digest of a folder\<close>

lemma read_chunks_append: "read_chunks f h = h @ f"
proof (induction f h rule: read_chunks.induct)
  case (1 f h)
  show ?case
  proof (cases "take 4096 f = []")
    case True
    then show ?thesis by (subst read_chunks.simps) (simp add: Let_def)
  next
    case False
    then have "read_chunks f h = read_chunks (drop 4096 f) (h @ take 4096 f)"
      by (subst read_chunks.simps) (simp add: Let_def)
    also have "\<dots> = (h @ take 4096 f) @ drop 4096 f"
      using 1 False by simp
    finally show ?thesis by simp
  qed
qed

lemma hash_file_bytes:
  "hash_file w root_dir file h = Inr h' \<Longrightarrow> h' = h @ file_bytes w (join root_dir file)"
  by (auto simp: hash_file_def open_rb_def file_bytes_def read_chunks_append
      split: sum.splits node.splits if_splits)

lemma hash_files_bytes:
  "for_each files (hash_file w root_dir) h = Inr h' \<Longrightarrow>
   h' = h @ concat (map (\<lambda>file. file_bytes w (join root_dir file)) files)"
proof (induction files arbitrary: h)
  case Nil
  then show ?case by simp
next
  case (Cons f fs)
  from Cons.prems obtain h1 where h1: "hash_file w root_dir f h = Inr h1"
    and rest: "for_each fs (hash_file w root_dir) h1 = Inr h'"
    by (auto split: sum.splits)
  from hash_file_bytes [OF h1] Cons.IH [OF rest] show ?case by simp
qed

lemma hash_dirs_bytes:
  "for_each entries (hash_dir w) h = Inr h' \<Longrightarrow> h' = h @ concat (map (dir_bytes w) entries)"
proof (induction entries arbitrary: h)
  case Nil
  then show ?case by simp
next
  case (Cons x xs)
  from Cons.prems obtain h1 where h1: "hash_dir w x h = Inr h1"
    and rest: "for_each xs (hash_dir w) h1 = Inr h'"
    by (auto split: sum.splits)
  from h1 have "h1 = h @ dir_bytes w x"
    by (auto simp: hash_dir_def dir_bytes_def split: prod.splits dest: hash_files_bytes)
  with Cons.IH [OF rest] show ?case by simp
qed

lemma get_folder_hash_bytes:
  "get_folder_hash md5 w folder = Inr d \<Longrightarrow> d = md5 (walk_bytes w folder)"
  by (auto simp: get_folder_hash_def walk_bytes_def split: sum.splits dest!: hash_dirs_bytes)

lemmas run_defs = os_stat_def comps_def join_def os_walk_def hash_dir_def hash_file_def open_rb_def
  get_folder_hash_def cycle_def check_for_events_def detect_events_def listdir_def
  source_event_def replica_event_def isfile_def isdir_def exists_def getmtime_def
  recopy_dir_def recopy_step_def relpath_def os_remove_def makedirs_def dirname_def basename_def
  copyfile_def copy2_def copystat_def samefile_def write_file_def logging_info_def print_def
  sync_folders_def copy_dir_def copy_step_def is_stale_def remove_dir_def remove_step_def
  writable_def Let_def


lemma two_trees_hash_p: "get_folder_hash md5 two_trees ''/p'' = Inr (md5 ''xy'')"
  by (simp add: two_trees_def run_defs read_chunks_append)

lemma two_trees_hash_q: "get_folder_hash md5 two_trees ''/q'' = Inr (md5 ''xy'')"
  by (simp add: two_trees_def run_defs read_chunks_append)

text \<open>
  C10. The digest computed by \<^verbatim>\<open>get_folder_hash\<close> depends only on the concatenation of the
  file contents in walk order: two folders with the same byte stream have the same digest.
  The folders \<^verbatim>\<open>/p\<close> and \<^verbatim>\<open>/q\<close> of \<open>two_trees\<close> differ in file names, in the placement of
  the files and in an empty directory, and have the same digest, so equal digests do not
  make two trees structurally identical.
\<close>

theorem get_folder_hash_stream_only:
  "(get_folder_hash md5 w1 folder1 = Inr d1 \<longrightarrow> get_folder_hash md5 w2 folder2 = Inr d2 \<longrightarrow>
      walk_bytes w1 folder1 = walk_bytes w2 folder2 \<longrightarrow> d1 = d2)
   \<and> get_folder_hash md5 two_trees ''/p'' = get_folder_hash md5 two_trees ''/q''
   \<and> os_walk two_trees ''/p'' = [(''/p'', [], [''a''])]
   \<and> os_walk two_trees ''/q'' = [(''/q'', [''e'', ''d''], []), (''/q/e'', [], []), (''/q/d'', [], [''b'', ''c''])]"
proof -
  have "d1 = d2" if "get_folder_hash md5 w1 folder1 = Inr d1" "get_folder_hash md5 w2 folder2 = Inr d2"
      "walk_bytes w1 folder1 = walk_bytes w2 folder2"
    using that by (auto dest!: get_folder_hash_bytes)
  moreover have "os_walk two_trees ''/p'' = [(''/p'', [], [''a''])]"
    by (simp add: two_trees_def os_walk_def os_stat_def comps_def join_def)
  moreover have "os_walk two_trees ''/q'' = [(''/q'', [''e'', ''d''], []), (''/q/e'', [], []), (''/q/d'', [], [''b'', ''c''])]"
    by (simp add: two_trees_def os_walk_def os_stat_def comps_def join_def)
  ultimately show ?thesis
    by (simp add: two_trees_hash_p two_trees_hash_q)
qed


theorem get_folder_hash_stream_only_witness:
  "get_folder_hash (\<lambda>b. b) (two_trees :: unit world) ''/p'' = Inr ''xy''
   \<and> get_folder_hash (\<lambda>b. b) (two_trees :: unit world) ''/q'' = Inr ''xy''
   \<and> walk_bytes (two_trees :: unit world) ''/p'' = walk_bytes (two_trees :: unit world) ''/q''"
proof -
  have wb: "walk_bytes (two_trees :: unit world) ''/p'' = walk_bytes (two_trees :: unit world) ''/q''"
    by (simp add: walk_bytes_def dir_bytes_def file_bytes_def two_trees_def os_walk_def os_stat_def
        comps_def join_def)
  from get_folder_hash_stream_only [of "\<lambda>b. b" "two_trees :: unit world" "''/p''" "''xy''"
      "two_trees :: unit world" "''/q''" "''xy''"] wb
  show ?thesis by (simp add: two_trees_hash_p two_trees_hash_q)
qed


subsection \<open>A replica folder that does not exist\<close>

lemma source_event_missing_replica:
  assumes "os_stat w replica_path = Inl FileNotFoundError"
  shows "source_event source_path replica_path filename (w, ev) = Inl (FileNotFoundError, w)
       \<or> source_event source_path replica_path filename (w, ev) = Inr (w, ev)"
  using assms by (simp add: source_event_def listdir_def Let_def)

lemma source_events_missing_replica:
  assumes "os_stat w replica_path = Inl FileNotFoundError"
  shows "for_each names (source_event source_path replica_path) (w, ev) = Inl (FileNotFoundError, w)
       \<or> for_each names (source_event source_path replica_path) (w, ev) = Inr (w, ev)"
proof (induction names)
  case Nil
  then show ?case by simp
next
  case (Cons n ns)
  from source_event_missing_replica [OF assms, of source_path n ev] Cons show ?case
    by auto
qed

lemma detect_events_missing_replica:
  assumes "os_stat w replica_path = Inl FileNotFoundError" and "isdir w source_path"
  shows "detect_events source_path replica_path w =
     Inl (if listdir w source_path = Inl PermissionError then PermissionError
          else FileNotFoundError, w)"
proof -
  from assms(2) obtain m r wr es where d: "os_stat w source_path = Inr (Dir m r wr es)"
    by (auto simp: isdir_def split: sum.splits node.splits)
  show ?thesis
  proof (cases r)
    case False
    with d have "listdir w source_path = Inl PermissionError"
      by (simp add: listdir_def)
    then show ?thesis by (simp add: detect_events_def)
  next
    case True
    with d have l: "listdir w source_path = Inr (map fst es)"
      by (simp add: listdir_def)
    from source_events_missing_replica [OF assms(1), of "map fst es" source_path
        "\<lparr>new_file = [], file_modified = [], file_removed = []\<rparr>"]
    show ?thesis
      using assms(1) l by (auto simp: detect_events_def listdir_def)
  qed
qed

text \<open>
  C4. When the replica folder does not exist and the source is a directory,
  \<^verbatim>\<open>check_for_events\<close> raises before anything is changed: FileNotFoundError at
  \<^verbatim>\<open>os.listdir(replica_path)\<close> (PermissionError at \<^verbatim>\<open>os.listdir(source_path)\<close> when the source
  may not be read). So does the cycle: the replica is neither treated as empty nor created.
\<close>

theorem missing_replica_raises:
  assumes "os_stat w replica_path = Inl FileNotFoundError" and "isdir w source_path"
  shows "check_for_events md5 source_path replica_path w =
           Inl (if listdir w source_path = Inl PermissionError then PermissionError
                else FileNotFoundError, w)
       \<and> cycle md5 log_level source_path replica_path w =
           Inl (if listdir w source_path = Inl PermissionError then PermissionError
                else FileNotFoundError, w)"
  using detect_events_missing_replica [OF assms]
  by (simp add: check_for_events_def cycle_def)

theorem missing_replica_raises_witness:
  "os_stat (no_replica :: string world) ''/r'' = Inl FileNotFoundError
   \<and> isdir (no_replica :: string world) ''/s''
   \<and> check_for_events stream_digest ''/s'' ''/r'' no_replica = Inl (FileNotFoundError, no_replica)
   \<and> cycle stream_digest ''INFO'' ''/s'' ''/r'' no_replica = Inl (FileNotFoundError, no_replica)"
proof -
  have a: "os_stat (no_replica :: string world) ''/r'' = Inl FileNotFoundError"
    by (simp add: no_replica_def os_stat_def comps_def)
  have b: "isdir (no_replica :: string world) ''/s''"
    by (simp add: no_replica_def isdir_def os_stat_def comps_def)
  have l: "listdir (no_replica :: string world) ''/s'' = Inr [''a'']"
    by (simp add: no_replica_def listdir_def os_stat_def comps_def)
  from missing_replica_raises [OF a b, of stream_digest "''INFO''"] a b l show ?thesis
    by simp
qed

subsection \<open>Runs of the cycle\<close>

lemma cycle_drifted:
  assumes "md5 ''x'' \<noteq> md5 ''xhi''"
  shows "cycle md5 ''INFO'' ''/s'' ''/r'' drifted = Inr drifted_after"
  using assms by (simp add: drifted_def drifted_after_def run_defs read_chunks_append)

lemma cycle_drifted_after:
  assumes "md5 ''x'' \<noteq> md5 ''xhi''"
  shows "cycle md5 ''INFO'' ''/s'' ''/r'' (drifted_after\<lparr>clock := 600\<rparr>) = Inr drifted_again"
  using assms by (simp add: drifted_again_def drifted_after_def run_defs read_chunks_append)

lemma hashes_drifted_after:
  "get_folder_hash md5 drifted_after ''/s'' = Inr (md5 ''x'')"
  "get_folder_hash md5 drifted_after ''/r'' = Inr (md5 ''xhi'')"
  by (simp_all add: drifted_after_def run_defs read_chunks_append)

text \<open>
  C1. On \<open>drifted\<close> the cycle completes, and afterwards the digest of the source is that of
  the bytes \<^verbatim>\<open>x\<close> and the digest of the replica is that of the bytes \<^verbatim>\<open>xhi\<close>: the file \<^verbatim>\<open>d/y\<close>
  is still in the replica. The two digests differ for every digest function that tells
  these two streams apart.
\<close>

theorem digests_differ_after_cycle:
  assumes "md5 ''x'' \<noteq> md5 ''xhi''"
  shows "cycle md5 ''INFO'' ''/s'' ''/r'' drifted = Inr drifted_after
       \<and> get_folder_hash md5 drifted_after ''/s'' = Inr (md5 ''x'')
       \<and> get_folder_hash md5 drifted_after ''/r'' = Inr (md5 ''xhi'')"
  using cycle_drifted [OF assms] by (simp add: hashes_drifted_after)

theorem digests_differ_after_cycle_witness:
  "stream_digest ''x'' \<noteq> stream_digest ''xhi''
   \<and> cycle stream_digest ''INFO'' ''/s'' ''/r'' drifted = Inr drifted_after
   \<and> get_folder_hash stream_digest (drifted_after :: string world) ''/s'' = Inr (stream_digest ''x'')
   \<and> get_folder_hash stream_digest (drifted_after :: string world) ''/r'' = Inr (stream_digest ''xhi'')"
proof -
  have h: "stream_digest ''x'' \<noteq> stream_digest ''xhi''"
    by (simp add: stream_digest_def)
  from digests_differ_after_cycle [OF h] h show ?thesis
    by blast
qed

text \<open>
  C3. A second cycle, run on the world that the first cycle left (at a later time, with no
  other change), removes and recopies the replica file \<^verbatim>\<open>/r/a\<close> again: the tree it leaves
  is not the tree it was given.
\<close>

theorem second_cycle_recopies:
  assumes "md5 ''x'' \<noteq> md5 ''xhi''"
  shows "cycle md5 ''INFO'' ''/s'' ''/r'' drifted = Inr drifted_after
       \<and> cycle md5 ''INFO'' ''/s'' ''/r'' (drifted_after\<lparr>clock := 600\<rparr>) = Inr drifted_again
       \<and> fsroot (drifted_again :: 'd world) \<noteq> fsroot (drifted_after :: 'd world)
       \<and> os_stat (drifted_after :: 'd world) ''/r/a'' = Inr (File ''x'' 500 True)
       \<and> os_stat (drifted_again :: 'd world) ''/r/a'' = Inr (File ''x'' 600 True)"
  using cycle_drifted [OF assms] cycle_drifted_after [OF assms]
  by (simp add: drifted_again_def drifted_after_def os_stat_def comps_def)

theorem second_cycle_recopies_witness:
  "stream_digest ''x'' \<noteq> stream_digest ''xhi''
   \<and> cycle stream_digest ''INFO'' ''/s'' ''/r'' (drifted_after\<lparr>clock := 600\<rparr>) = Inr drifted_again
   \<and> fsroot (drifted_again :: string world) \<noteq> fsroot (drifted_after :: string world)"
proof -
  have h: "stream_digest ''x'' \<noteq> stream_digest ''xhi''"
    by (simp add: stream_digest_def)
  from second_cycle_recopies [OF h] h show ?thesis
    by blast
qed

text \<open>
  C6. The copy made by the fallback pass carries the bytes of the source file and the time
  of the copy (500), not the source file's modification time (100), which the replica file
  had before the cycle.
\<close>

theorem fallback_copy_is_stamped_now:
  assumes "md5 ''x'' \<noteq> md5 ''xhi''"
  shows "cycle md5 ''INFO'' ''/s'' ''/r'' drifted = Inr drifted_after
       \<and> os_stat (drifted :: 'd world) ''/r/a'' = Inr (File ''x'' 100 True)
       \<and> os_stat (drifted_after :: 'd world) ''/s/a'' = Inr (File ''x'' 100 True)
       \<and> os_stat (drifted_after :: 'd world) ''/r/a'' = Inr (File ''x'' 500 True)"
  using cycle_drifted [OF assms]
  by (simp add: drifted_def drifted_after_def os_stat_def comps_def)

theorem fallback_copy_is_stamped_now_witness:
  "stream_digest ''x'' \<noteq> stream_digest ''xhi''
   \<and> cycle stream_digest ''INFO'' ''/s'' ''/r'' drifted = Inr drifted_after
   \<and> os_stat (drifted_after :: string world) ''/s/a'' = Inr (File ''x'' 100 True)
   \<and> os_stat (drifted_after :: string world) ''/r/a'' = Inr (File ''x'' 500 True)"
proof -
  have h: "stream_digest ''x'' \<noteq> stream_digest ''xhi''"
    by (simp add: stream_digest_def)
  from fallback_copy_is_stamped_now [OF h] h show ?thesis
    by blast
qed

text \<open>
  C8. The cycle on \<open>drifted\<close> removes and recopies \<^verbatim>\<open>/r/a\<close> in the fallback pass and changes
  the tree, and the only record it logs is the closing one: no record and no printed line
  for the removal or for the copy.
\<close>

theorem fallback_is_not_logged:
  assumes "md5 ''x'' \<noteq> md5 ''xhi''"
  shows "cycle md5 ''INFO'' ''/s'' ''/r'' drifted = Inr drifted_after
       \<and> fsroot (drifted_after :: 'd world) \<noteq> fsroot (drifted :: 'd world)
       \<and> records (drifted :: 'd world) = []
       \<and> records (drifted_after :: 'd world) = [Folders_synchronized 500]
       \<and> console (drifted_after :: 'd world) = []"
  using cycle_drifted [OF assms]
  by (simp add: drifted_def drifted_after_def)

theorem fallback_is_not_logged_witness:
  "stream_digest ''x'' \<noteq> stream_digest ''xhi''
   \<and> cycle stream_digest ''INFO'' ''/s'' ''/r'' drifted = Inr drifted_after
   \<and> records (drifted_after :: string world) = [Folders_synchronized 500]"
proof -
  have h: "stream_digest ''x'' \<noteq> stream_digest ''xhi''"
    by (simp add: stream_digest_def)
  from fallback_is_not_logged [OF h] h show ?thesis
    by blast
qed

lemma check_shared_prefix:
  "check_for_events md5 ''/xs/'' ''/x'' shared_prefix =
     Inr (shared_prefix_after\<lparr>records := [New_file_created ''/xs/t'', File_copied ''/xs/t'' ''/x/t'',
            File_copied ''/xs/s/f'' ''/xs/f'', Sync_complete 500, Source_hash (md5 ''new'')],
          console := [New_file_created ''/xs/t'', File_copied ''/xs/t'' ''/x/t'',
            File_copied ''/xs/s/f'' ''/xs/f'', Sync_complete 500]\<rparr>)"
  by (simp add: shared_prefix_def shared_prefix_after_def run_defs read_chunks_append)

text \<open>
  C9. With the source given as \<^verbatim>\<open>/xs/\<close> and the replica as \<^verbatim>\<open>/x\<close>, \<^verbatim>\<open>str.replace\<close> maps the
  source directory \<^verbatim>\<open>/xs/s\<close> to \<^verbatim>\<open>/xs\<close>, and the cycle copies \<^verbatim>\<open>/xs/s/f\<close> to \<^verbatim>\<open>/xs/f\<close>: a file
  that was not there is created inside the source tree.
\<close>

theorem cycle_writes_into_source:
  "cycle md5 ''INFO'' ''/xs/'' ''/x'' shared_prefix =
     Inr (shared_prefix_after\<lparr>records := [New_file_created ''/xs/t'', File_copied ''/xs/t'' ''/x/t'',
            File_copied ''/xs/s/f'' ''/xs/f'', Sync_complete 500, Source_hash (md5 ''new''),
            Folders_synchronized 500],
          console := [New_file_created ''/xs/t'', File_copied ''/xs/t'' ''/x/t'',
            File_copied ''/xs/s/f'' ''/xs/f'', Sync_complete 500]\<rparr>)
   \<and> os_stat (shared_prefix :: 'd world) ''/xs/f'' = Inl FileNotFoundError
   \<and> os_stat (shared_prefix_after :: 'd world) ''/xs/f'' = Inr (File [] 100 True)
   \<and> resolve (fsroot (shared_prefix_after :: 'd world)) (comps ''/xs/'')
       \<noteq> resolve (fsroot (shared_prefix :: 'd world)) (comps ''/xs/'')"
proof -
  have "cycle md5 ''INFO'' ''/xs/'' ''/x'' shared_prefix =
     Inr (shared_prefix_after\<lparr>records := [New_file_created ''/xs/t'', File_copied ''/xs/t'' ''/x/t'',
            File_copied ''/xs/s/f'' ''/xs/f'', Sync_complete 500, Source_hash (md5 ''new''),
            Folders_synchronized 500],
          console := [New_file_created ''/xs/t'', File_copied ''/xs/t'' ''/x/t'',
            File_copied ''/xs/s/f'' ''/xs/f'', Sync_complete 500]\<rparr>)"
    unfolding cycle_def check_shared_prefix
    by (simp add: shared_prefix_after_def os_stat_def comps_def join_def os_walk_def hash_dir_def
        hash_file_def open_rb_def get_folder_hash_def logging_info_def read_chunks_append)
  then show ?thesis
    by (simp add: shared_prefix_def shared_prefix_after_def os_stat_def comps_def)
qed


subsection \<open>Files and directories that only the replica has\<close>

text \<open>
  C2. On \<open>orphan\<close> the cycle calls \<^verbatim>\<open>sync_folders\<close> (the top-level replica file \<^verbatim>\<open>gone\<close> is an
  event) and completes. It removes \<^verbatim>\<open>/r/gone\<close> and \<^verbatim>\<open>/r/d/old\<close>. The directory \<^verbatim>\<open>/r/d\<close>, which the
  source does not have, is still in the replica afterwards, and so are the directory
  \<^verbatim>\<open>/r/rub\<close> and its file \<^verbatim>\<open>f\<close>, although nothing exists at \<^verbatim>\<open>/s/rub\<close>: the second walk looks
  for the counterpart of \<^verbatim>\<open>/r/rub/f\<close> under the path that \<^verbatim>\<open>str.replace\<close> makes of \<^verbatim>\<open>/r/rub\<close>,
  which is \<^verbatim>\<open>/s/sub\<close>.
\<close>

theorem orphans_survive_the_cycle:
  "cycle md5 ''INFO'' ''/s'' ''/r'' orphan =
     Inr (orphan_after\<lparr>records := [File_removed ''/r/gone'', File_removed ''/r/d/old'',
            Source_hash (md5 ''xy''), Folders_synchronized 500],
          console := [File_removed ''/r/gone'', File_removed ''/r/d/old'']\<rparr>)
   \<and> isdir (orphan :: 'd world) ''/r/d''
   \<and> \<not> exists (orphan :: 'd world) ''/s/d''
   \<and> isfile (orphan :: 'd world) ''/r/rub/f''
   \<and> \<not> exists (orphan :: 'd world) ''/s/rub''
   \<and> replace ''/r/rub'' ''/r'' ''/s'' = ''/s/sub''
   \<and> isdir (orphan_after :: 'd world) ''/r/d''
   \<and> \<not> exists (orphan_after :: 'd world) ''/s/d''
   \<and> isfile (orphan_after :: 'd world) ''/r/rub/f''
   \<and> \<not> exists (orphan_after :: 'd world) ''/s/rub''"
proof -
  have "cycle md5 ''INFO'' ''/s'' ''/r'' orphan =
     Inr (orphan_after\<lparr>records := [File_removed ''/r/gone'', File_removed ''/r/d/old'',
            Source_hash (md5 ''xy''), Folders_synchronized 500],
          console := [File_removed ''/r/gone'', File_removed ''/r/d/old'']\<rparr>)"
    by (simp add: orphan_def orphan_after_def run_defs read_chunks_append)
  then show ?thesis
    by (simp add: orphan_def orphan_after_def isdir_def isfile_def exists_def os_stat_def comps_def)
qed

subsection \<open>The staleness test in the targeted pass\<close>

text \<open>
  C5. On \<open>tolerance\<close> every source file has its counterpart in the replica. \<^verbatim>\<open>sync_folders\<close>
  leaves \<^verbatim>\<open>/r/a\<close>, 1 second older than \<^verbatim>\<open>/s/a\<close>, as it is and copies \<^verbatim>\<open>/s/b\<close> over \<^verbatim>\<open>/r/b\<close>, which
  is 2 seconds older. It also copies \<^verbatim>\<open>/s/sub/f\<close>, although the counterpart \<^verbatim>\<open>/r/sub/f\<close> has the
  same time: line 46 replaces every occurrence of the source path in the path of the walked
  directory, \<^verbatim>\<open>/s/sub\<close> becomes \<^verbatim>\<open>/r/rub\<close>, and the test of line 54 looks at \<^verbatim>\<open>/r/rub/f\<close>, which
  does not exist. \<^verbatim>\<open>check_for_events\<close> reaches the pass on this world.
\<close>

theorem pass_copies_file_with_fresh_counterpart:
  "sync_folders ''/s'' ''/r'' (tolerance :: 'd world) = Inr tolerance_after
   \<and> check_for_events md5 ''/s'' ''/r'' tolerance =
       Inr (tolerance_after\<lparr>records := [File_modified ''/s/a'', File_modified ''/s/b'',
              File_copied ''/s/b'' ''/r/b'', File_copied ''/s/sub/f'' ''/r/rub/f'',
              Sync_complete 500, Source_hash (md5 ''xyz'')],
            console := [File_modified ''/s/a'', File_modified ''/s/b'',
              File_copied ''/s/b'' ''/r/b'', File_copied ''/s/sub/f'' ''/r/rub/f'',
              Sync_complete 500]\<rparr>)
   \<and> os_stat (tolerance :: 'd world) ''/s/a'' = Inr (File ''x'' 101 True)
   \<and> os_stat (tolerance :: 'd world) ''/r/a'' = Inr (File ''x'' 100 True)
   \<and> os_stat (tolerance_after :: 'd world) ''/r/a'' = Inr (File ''x'' 100 True)
   \<and> os_stat (tolerance :: 'd world) ''/s/b'' = Inr (File ''y'' 102 True)
   \<and> os_stat (tolerance :: 'd world) ''/r/b'' = Inr (File ''y'' 100 True)
   \<and> os_stat (tolerance_after :: 'd world) ''/r/b'' = Inr (File ''y'' 102 True)
   \<and> os_stat (tolerance :: 'd world) ''/s/sub/f'' = Inr (File ''z'' 100 True)
   \<and> os_stat (tolerance :: 'd world) ''/r/sub/f'' = Inr (File ''z'' 100 True)
   \<and> replace ''/s/sub'' ''/s'' ''/r'' = ''/r/rub''
   \<and> \<not> exists (tolerance :: 'd world) ''/r/rub''
   \<and> os_stat (tolerance_after :: 'd world) ''/r/rub/f'' = Inr (File ''z'' 100 True)
   \<and> records (tolerance_after :: 'd world) =
       [File_copied ''/s/b'' ''/r/b'', File_copied ''/s/sub/f'' ''/r/rub/f'', Sync_complete 500]"
proof -
  have s: "sync_folders ''/s'' ''/r'' (tolerance :: 'd world) = Inr tolerance_after"
    by (simp add: tolerance_def tolerance_after_def run_defs)
  have "check_for_events md5 ''/s'' ''/r'' tolerance =
       Inr (tolerance_after\<lparr>records := [File_modified ''/s/a'', File_modified ''/s/b'',
              File_copied ''/s/b'' ''/r/b'', File_copied ''/s/sub/f'' ''/r/rub/f'',
              Sync_complete 500, Source_hash (md5 ''xyz'')],
            console := [File_modified ''/s/a'', File_modified ''/s/b'',
              File_copied ''/s/b'' ''/r/b'', File_copied ''/s/sub/f'' ''/r/rub/f'',
              Sync_complete 500]\<rparr>)"
    by (simp add: tolerance_def tolerance_after_def run_defs read_chunks_append)
  with s show ?thesis
    by (simp add: tolerance_def tolerance_after_def exists_def os_stat_def comps_def)
qed

theorem pass_copies_file_with_fresh_counterpart_witness:
  "sync_folders ''/s'' ''/r'' (tolerance :: string world) = Inr tolerance_after
   \<and> check_for_events stream_digest ''/s'' ''/r'' tolerance =
       Inr (tolerance_after\<lparr>records := [File_modified ''/s/a'', File_modified ''/s/b'',
              File_copied ''/s/b'' ''/r/b'', File_copied ''/s/sub/f'' ''/r/rub/f'',
              Sync_complete 500, Source_hash (stream_digest ''xyz'')],
            console := [File_modified ''/s/a'', File_modified ''/s/b'',
              File_copied ''/s/b'' ''/r/b'', File_copied ''/s/sub/f'' ''/r/rub/f'',
              Sync_complete 500]\<rparr>)
   \<and> os_stat (tolerance :: string world) ''/r/sub/f'' = Inr (File ''z'' 100 True)
   \<and> os_stat (tolerance_after :: string world) ''/r/rub/f'' = Inr (File ''z'' 100 True)"
  using pass_copies_file_with_fresh_counterpart [of stream_digest]
  by blast

subsection \<open>Exceptions\<close>

lemma for_each_append:
  "for_each (xs @ ys) body s =
     (case for_each xs body s of Inl e \<Rightarrow> Inl e | Inr s1 \<Rightarrow> for_each ys body s1)"
  by (induction xs arbitrary: s) (auto split: sum.splits)

lemma write_file_log:
  "write_file p data w = Inr w' \<Longrightarrow> records w' = records w \<and> console w' = console w"
  by (auto simp: write_file_def Let_def split: if_splits sum.splits node.splits option.splits)

lemma write_file_raises: "write_file p data w = Inl (e, w') \<Longrightarrow> w' = w"
  by (auto simp: write_file_def Let_def split: if_splits sum.splits node.splits option.splits)

lemma copyfile_log:
  "copyfile src dst w = Inr w' \<Longrightarrow> records w' = records w \<and> console w' = console w"
  by (auto simp: copyfile_def split: if_splits sum.splits dest: write_file_log)

lemma copyfile_raises: "copyfile src dst w = Inl (e, w') \<Longrightarrow> w' = w"
  by (auto simp: copyfile_def split: if_splits sum.splits dest: write_file_raises)

lemma copystat_raises: "copystat src dst w = Inl (e, w') \<Longrightarrow> w' = w"
  by (auto simp: copystat_def Let_def split: if_splits sum.splits)

lemma copy2_raises:
  assumes "copy2 src dst w = Inl (e, w')"
  shows "records w' = records w \<and> console w' = console w"
proof -
  let ?dst = "if isdir w dst then join dst (basename src) else dst"
  show ?thesis
  proof (cases "copyfile src ?dst w")
    case (Inl x)
    with assms have "copyfile src ?dst w = Inl (e, w')"
      by (simp add: copy2_def Let_def)
    from copyfile_raises [OF this] show ?thesis by simp
  next
    case (Inr w1)
    with assms have "copystat src ?dst w1 = Inl (e, w')"
      by (simp add: copy2_def Let_def)
    from copystat_raises [OF this] copyfile_log [OF Inr] show ?thesis by simp
  qed
qed

lemma os_remove_raises: "os_remove p w = Inl (e, w') \<Longrightarrow> w' = w"
  by (auto simp: os_remove_def Let_def split: if_splits sum.splits node.splits option.splits)

lemma hash_files_fail:
  assumes "f \<in> set fs" "open_rb w (join rd f) = Inl e"
  shows "\<exists>e'. for_each fs (hash_file w rd) h = Inl e'"
  using assms(1)
proof (induction fs arbitrary: h)
  case Nil
  then show ?case by simp
next
  case (Cons g fs)
  show ?case
  proof (cases "hash_file w rd g h")
    case (Inl e')
    then show ?thesis by simp
  next
    case (Inr h1)
    with assms(2) have "g \<noteq> f" by (auto simp: hash_file_def)
    with Cons.prems have "f \<in> set fs" by simp
    from Cons.IH [OF this, of h1] Inr show ?thesis by simp
  qed
qed

lemma hash_dirs_fail:
  assumes "(rd, ds, fs) \<in> set xs" "f \<in> set fs" "open_rb w (join rd f) = Inl e"
  shows "\<exists>e'. for_each xs (hash_dir w) h = Inl e'"
  using assms(1)
proof (induction xs arbitrary: h)
  case Nil
  then show ?case by simp
next
  case (Cons x xs)
  show ?case
  proof (cases "hash_dir w x h")
    case (Inl e')
    then show ?thesis by simp
  next
    case (Inr h1)
    have "x \<noteq> (rd, ds, fs)"
    proof
      assume "x = (rd, ds, fs)"
      with Inr hash_files_fail [OF assms(2,3), of h] show False
        by (auto simp: hash_dir_def)
    qed
    with Cons.prems have "(rd, ds, fs) \<in> set xs" by simp
    from Cons.IH [OF this, of h1] Inr show ?thesis by simp
  qed
qed

lemma copy_failure_ends_pass:
  assumes walk: "os_walk w S = pre @ (rd, ds, fs1 @ f # fs2) # post"
    and pre: "for_each pre (copy_dir S R) (w, False) = Inr (w1, b1)"
    and mk: "makedirs (replace rd S R) w1 = Inr w2"
    and fs1: "for_each fs1 (copy_step rd (replace rd S R)) (w2, b1) = Inr (w3, b3)"
    and stale: "is_stale w3 (join rd f) (join (replace rd S R) f) = Inr True"
    and copy: "copy2 (join rd f) (join (replace rd S R) f) w3 = Inl (e, w4)"
  shows "sync_folders S R w = Inl (e, w4)"
proof -
  from stale copy have "copy_step rd (replace rd S R) f (w3, b3) = Inl (e, w4)"
    by (simp add: copy_step_def Let_def)
  with fs1 have "for_each (fs1 @ f # fs2) (copy_step rd (replace rd S R)) (w2, b1) = Inl (e, w4)"
    by (simp add: for_each_append)
  with mk have "copy_dir S R (rd, ds, fs1 @ f # fs2) (w1, b1) = Inl (e, w4)"
    by (simp add: copy_dir_def Let_def)
  with pre walk have "for_each (os_walk w S) (copy_dir S R) (w, False) = Inl (e, w4)"
    by (simp add: for_each_append)
  then show ?thesis
    by (simp add: sync_folders_def)
qed

lemma remove_failure_ends_pass:
  assumes first: "for_each (os_walk w S) (copy_dir S R) (w, False) = Inr (w1, b1)"
    and walk: "os_walk w1 R = pre @ (rr, ds, fs1 @ f # fs2) # post"
    and pre: "for_each pre (remove_dir S R) w1 = Inr w2"
    and fs1: "for_each fs1 (remove_step (replace rr R S) rr) w2 = Inr w3"
    and gone: "\<not> exists w3 (join (replace rr R S) f)"
    and rm: "os_remove (join rr f) w3 = Inl (e, w4)"
  shows "sync_folders S R w = Inl (e, w4)"
proof -
  from gone rm have "remove_step (replace rr R S) rr f w3 = Inl (e, w4)"
    by (simp add: remove_step_def Let_def)
  with fs1 have "for_each (fs1 @ f # fs2) (remove_step (replace rr R S) rr) w2 = Inl (e, w4)"
    by (simp add: for_each_append)
  then have "remove_dir S R (rr, ds, fs1 @ f # fs2) w2 = Inl (e, w4)"
    by (simp add: remove_dir_def Let_def)
  with pre walk have "for_each (os_walk w1 R) (remove_dir S R) w1 = Inl (e, w4)"
    by (simp add: for_each_append)
  with first show ?thesis
    by (simp add: sync_folders_def)
qed

lemma cycle_unreadable:
  "cycle md5 ''INFO'' ''/s'' ''/r'' unreadable = Inl (PermissionError, unreadable_failed)"
  by (simp add: unreadable_def unreadable_failed_def run_defs)

lemma cycle_locked:
  "cycle md5 ''INFO'' ''/s'' ''/r'' locked = Inl (PermissionError, locked_failed)"
  by (simp add: locked_def locked_failed_def run_defs)

lemma cycle_hidden:
  "cycle md5 ''INFO'' ''/s'' ''/r'' hidden =
     Inr (hidden_after\<lparr>records := [New_file_created ''/s/n'', File_copied ''/s/n'' ''/r/n'',
            Sync_complete 500, Source_hash (md5 ''new''), Folders_synchronized 500],
          console := [New_file_created ''/s/n'', File_copied ''/s/n'' ''/r/n'', Sync_complete 500]\<rparr>)"
  by (simp add: hidden_def hidden_after_def run_defs read_chunks_append)

text \<open>
  C7, as stated, fails. On \<open>unreadable\<close> the copy of \<^verbatim>\<open>/s/b\<close> raises PermissionError and the
  cycle ends with it: \<^verbatim>\<open>/s/a\<close> has been copied and logged, nothing is recorded for the failure,
  and \<^verbatim>\<open>/s/c\<close> is never copied; the hash walk over \<^verbatim>\<open>/s\<close> raises as well. On \<open>locked\<close> the
  removal of \<^verbatim>\<open>/r/d/old\<close> raises PermissionError and the cycle ends with it: \<^verbatim>\<open>/r/gone\<close> has been
  removed and logged, nothing is recorded for the failure, and \<^verbatim>\<open>/r/e/late\<close> is never removed.
  On \<open>hidden\<close> the cycle completes: the walk passes over the directory \<^verbatim>\<open>/s/priv\<close>, which it
  may not read, its file \<^verbatim>\<open>k\<close> is not in the replica, and no record mentions either.
\<close>

theorem failure_ends_or_escapes_the_cycle:
  "cycle stream_digest ''INFO'' ''/s'' ''/r'' unreadable = Inl (PermissionError, unreadable_failed)
   \<and> os_stat (unreadable_failed :: string world) ''/r/a'' = Inr (File ''x'' 100 True)
   \<and> os_stat (unreadable_failed :: string world) ''/s/c'' = Inr (File ''z'' 100 True)
   \<and> \<not> exists (unreadable_failed :: string world) ''/r/c''
   \<and> records (unreadable_failed :: string world) =
        [New_file_created ''/s/a'', New_file_created ''/s/b'', New_file_created ''/s/c'',
         File_copied ''/s/a'' ''/r/a'']
   \<and> console (unreadable_failed :: string world) = records (unreadable_failed :: string world)
   \<and> get_folder_hash stream_digest (unreadable :: string world) ''/s'' = Inl PermissionError
   \<and> cycle stream_digest ''INFO'' ''/s'' ''/r'' locked = Inl (PermissionError, locked_failed)
   \<and> \<not> exists (locked_failed :: string world) ''/r/gone''
   \<and> os_stat (locked_failed :: string world) ''/r/d/old'' = Inr (File ''o'' 10 True)
   \<and> os_stat (locked_failed :: string world) ''/r/e/late'' = Inr (File ''l'' 10 True)
   \<and> \<not> exists (locked_failed :: string world) ''/s/e''
   \<and> records (locked_failed :: string world) = [File_removed ''/r/gone'']
   \<and> console (locked_failed :: string world) = [File_removed ''/r/gone'']
   \<and> cycle stream_digest ''INFO'' ''/s'' ''/r'' hidden =
        Inr (hidden_after\<lparr>records := [New_file_created ''/s/n'', File_copied ''/s/n'' ''/r/n'',
               Sync_complete 500, Source_hash (stream_digest ''new''), Folders_synchronized 500],
             console := [New_file_created ''/s/n'', File_copied ''/s/n'' ''/r/n'', Sync_complete 500]\<rparr>)
   \<and> os_stat (hidden_after :: string world) ''/s/priv/k'' = Inr (File ''key'' 100 True)
   \<and> \<not> exists (hidden_after :: string world) ''/r/priv''"
proof -
  have "get_folder_hash stream_digest (unreadable :: string world) ''/s'' = Inl PermissionError"
    by (simp add: unreadable_def run_defs read_chunks_append)
  then show ?thesis
    using cycle_unreadable [of stream_digest] cycle_locked [of stream_digest] cycle_hidden [of stream_digest]
    by (simp add: unreadable_failed_def locked_failed_def hidden_after_def exists_def os_stat_def
        comps_def)
qed

text \<open>
  C7, amended. When \<^verbatim>\<open>shutil.copy2\<close> raises at a file of the first walk of \<^verbatim>\<open>sync_folders\<close>,
  after the directories and files listed before it have been handled, \<^verbatim>\<open>sync_folders\<close> raises
  that exception in the state that the failing call leaves; the log records and the printed
  lines of that state are those made before the call, with none for the failure. When
  \<^verbatim>\<open>os.remove\<close> raises at a file of the second walk, \<^verbatim>\<open>sync_folders\<close> raises that exception in
  the state before the call. In both cases what the walk lists after the failing file is
  not attempted. When \<^verbatim>\<open>sync_folders\<close> raises, \<^verbatim>\<open>check_for_events\<close> and the cycle raise the same
  exception in the same state. When a file that the walk of \<^verbatim>\<open>get_folder_hash\<close> reaches cannot
  be opened, \<^verbatim>\<open>get_folder_hash\<close> raises. \<^verbatim>\<open>os.walk\<close> raises nothing for a directory that may not
  be read and yields nothing for it: \<^verbatim>\<open>get_folder_hash\<close> of such a folder returns the digest of
  no bytes.
\<close>

theorem failure_ends_the_cycle:
  "(os_walk w S = pre @ (rd, ds, fs1 @ f # fs2) # post \<longrightarrow>
    for_each pre (copy_dir S R) (w, False) = Inr (w1, b1) \<longrightarrow>
    makedirs (replace rd S R) w1 = Inr w2 \<longrightarrow>
    for_each fs1 (copy_step rd (replace rd S R)) (w2, b1) = Inr (w3, b3) \<longrightarrow>
    is_stale w3 (join rd f) (join (replace rd S R) f) = Inr True \<longrightarrow>
    copy2 (join rd f) (join (replace rd S R) f) w3 = Inl (e, w4) \<longrightarrow>
      sync_folders S R w = Inl (e, w4) \<and> records w4 = records w3 \<and> console w4 = console w3)
   \<and> (for_each (os_walk w S) (copy_dir S R) (w, False) = Inr (w1, b1) \<longrightarrow>
      os_walk w1 R = pre @ (rr, ds, fs1 @ f # fs2) # post \<longrightarrow>
      for_each pre (remove_dir S R) w1 = Inr w2 \<longrightarrow>
      for_each fs1 (remove_step (replace rr R S) rr) w2 = Inr w3 \<longrightarrow>
      \<not> exists w3 (join (replace rr R S) f) \<longrightarrow>
      os_remove (join rr f) w3 = Inl (e, w4) \<longrightarrow>
        sync_folders S R w = Inl (e, w4) \<and> w4 = w3)
   \<and> (detect_events S R w = Inr (w1, ev) \<longrightarrow>
      new_file ev \<noteq> [] \<or> file_modified ev \<noteq> [] \<or> file_removed ev \<noteq> [] \<longrightarrow>
      sync_folders S R w1 = Inl x \<longrightarrow>
        check_for_events md5 S R w = Inl x \<and> cycle md5 log_level S R w = Inl x)
   \<and> ((rd, ds, fs) \<in> set (os_walk w folder) \<longrightarrow> f \<in> set fs \<longrightarrow>
      open_rb w (join rd f) = Inl e \<longrightarrow> (\<exists>e'. get_folder_hash md5 w folder = Inl e'))
   \<and> walk_node t (Dir m False wr es) = []
   \<and> (os_stat w folder = Inr (Dir m False wr es) \<longrightarrow>
      os_walk w folder = [] \<and> get_folder_hash md5 w folder = Inr (md5 []))"
proof (intro conjI impI)
  assume a: "os_walk w S = pre @ (rd, ds, fs1 @ f # fs2) # post"
    "for_each pre (copy_dir S R) (w, False) = Inr (w1, b1)"
    "makedirs (replace rd S R) w1 = Inr w2"
    "for_each fs1 (copy_step rd (replace rd S R)) (w2, b1) = Inr (w3, b3)"
    "is_stale w3 (join rd f) (join (replace rd S R) f) = Inr True"
    "copy2 (join rd f) (join (replace rd S R) f) w3 = Inl (e, w4)"
  from copy_failure_ends_pass [OF a] show "sync_folders S R w = Inl (e, w4)" .
  from copy2_raises [OF a(6)] show "records w4 = records w3" "console w4 = console w3"
    by simp_all
next
  assume a: "for_each (os_walk w S) (copy_dir S R) (w, False) = Inr (w1, b1)"
    "os_walk w1 R = pre @ (rr, ds, fs1 @ f # fs2) # post"
    "for_each pre (remove_dir S R) w1 = Inr w2"
    "for_each fs1 (remove_step (replace rr R S) rr) w2 = Inr w3"
    "\<not> exists w3 (join (replace rr R S) f)"
    "os_remove (join rr f) w3 = Inl (e, w4)"
  from remove_failure_ends_pass [OF a] show "sync_folders S R w = Inl (e, w4)" .
  from os_remove_raises [OF a(6)] show "w4 = w3" .
next
  assume a: "detect_events S R w = Inr (w1, ev)"
    "new_file ev \<noteq> [] \<or> file_modified ev \<noteq> [] \<or> file_removed ev \<noteq> []"
    "sync_folders S R w1 = Inl x"
  then show "check_for_events md5 S R w = Inl x"
    by (simp add: check_for_events_def)
  with a show "cycle md5 log_level S R w = Inl x"
    by (simp add: cycle_def)
next
  assume "(rd, ds, fs) \<in> set (os_walk w folder)" "f \<in> set fs" "open_rb w (join rd f) = Inl e"
  from hash_dirs_fail [OF this, of "[]"] show "\<exists>e'. get_folder_hash md5 w folder = Inl e'"
    by (auto simp: get_folder_hash_def)
next
  show "walk_node t (Dir m False wr es) = []"
    by simp
next
  assume a: "os_stat w folder = Inr (Dir m False wr es)"
  then show "os_walk w folder = []"
    by (simp add: os_walk_def)
  then show "get_folder_hash md5 w folder = Inr (md5 [])"
    by (simp add: get_folder_hash_def)
qed

theorem failure_ends_the_cycle_witness:
  "os_walk (unreadable_seen :: string world) ''/s'' = [] @ (''/s'', [], [''a''] @ ''b'' # [''c'']) # []
   \<and> for_each [] (copy_dir ''/s'' ''/r'') (unreadable_seen :: string world, False)
        = Inr (unreadable_seen, False)
   \<and> makedirs (replace ''/s'' ''/s'' ''/r'') (unreadable_seen :: string world) = Inr unreadable_seen
   \<and> for_each [''a''] (copy_step ''/s'' (replace ''/s'' ''/s'' ''/r''))
        (unreadable_seen :: string world, False) = Inr (unreadable_failed, True)
   \<and> is_stale (unreadable_failed :: string world) (join ''/s'' ''b'')
        (join (replace ''/s'' ''/s'' ''/r'') ''b'') = Inr True
   \<and> copy2 (join ''/s'' ''b'') (join (replace ''/s'' ''/s'' ''/r'') ''b'')
        (unreadable_failed :: string world) = Inl (PermissionError, unreadable_failed)
   \<and> sync_folders ''/s'' ''/r'' (unreadable_seen :: string world)
        = Inl (PermissionError, unreadable_failed)
   \<and> detect_events ''/s'' ''/r'' (unreadable :: string world) =
        Inr (unreadable_seen, \<lparr>new_file = [''a'', ''b'', ''c''], file_modified = [], file_removed = []\<rparr>)
   \<and> check_for_events stream_digest ''/s'' ''/r'' unreadable = Inl (PermissionError, unreadable_failed)
   \<and> cycle stream_digest ''INFO'' ''/s'' ''/r'' unreadable = Inl (PermissionError, unreadable_failed)
   \<and> for_each (os_walk (locked :: string world) ''/s'') (copy_dir ''/s'' ''/r'')
        (locked :: string world, False) = Inr (locked, False)
   \<and> os_walk (locked :: string world) ''/r'' =
        [(''/r'', [''d'', ''e''], [''a'', ''gone''])] @ (''/r/d'', [], [] @ ''old'' # [])
          # [(''/r/e'', [], [''late''])]
   \<and> for_each [(''/r'', [''d'', ''e''], [''a'', ''gone''])] (remove_dir ''/s'' ''/r'')
        (locked :: string world) = Inr locked_failed
   \<and> for_each [] (remove_step (replace ''/r/d'' ''/r'' ''/s'') ''/r/d'') (locked_failed :: string world)
        = Inr locked_failed
   \<and> \<not> exists (locked_failed :: string world) (join (replace ''/r/d'' ''/r'' ''/s'') ''old'')
   \<and> os_remove (join ''/r/d'' ''old'') (locked_failed :: string world)
        = Inl (PermissionError, locked_failed)
   \<and> sync_folders ''/s'' ''/r'' (locked :: string world) = Inl (PermissionError, locked_failed)
   \<and> detect_events ''/s'' ''/r'' (locked :: string world) =
        Inr (locked, \<lparr>new_file = [], file_modified = [], file_removed = [''gone'']\<rparr>)
   \<and> check_for_events stream_digest ''/s'' ''/r'' locked = Inl (PermissionError, locked_failed)
   \<and> cycle stream_digest ''INFO'' ''/s'' ''/r'' locked = Inl (PermissionError, locked_failed)
   \<and> (''/s'', [], [''a'', ''b'', ''c'']) \<in> set (os_walk (unreadable :: string world) ''/s'')
   \<and> ''b'' \<in> set [''a'', ''b'', ''c'']
   \<and> open_rb (unreadable :: string world) (join ''/s'' ''b'') = Inl PermissionError
   \<and> (\<exists>e'. get_folder_hash stream_digest (unreadable :: string world) ''/s'' = Inl e')
   \<and> os_stat (hidden :: string world) ''/s/priv'' = Inr (Dir 0 False True [(''k'', File ''key'' 100 True)])
   \<and> os_walk (hidden :: string world) ''/s/priv'' = []
   \<and> get_folder_hash stream_digest (hidden :: string world) ''/s/priv'' = Inr (stream_digest [])
   \<and> os_walk (hidden :: string world) ''/s'' = [(''/s'', [''priv''], [''n''])]"
proof -
  let ?u = "unreadable :: string world"
  let ?us = "unreadable_seen :: string world"
  let ?uf = "unreadable_failed :: string world"
  let ?l = "locked :: string world"
  let ?lf = "locked_failed :: string world"
  let ?h = "hidden :: string world"
  let ?ev = "\<lparr>new_file = [''a'', ''b'', ''c''], file_modified = [], file_removed = []\<rparr>"
  let ?ev' = "\<lparr>new_file = [], file_modified = [], file_removed = [''gone'']\<rparr>"
  have a1: "os_walk ?us ''/s'' = [] @ (''/s'', [], [''a''] @ ''b'' # [''c'']) # []"
    by (simp add: unreadable_seen_def run_defs)
  have a2: "for_each [] (copy_dir ''/s'' ''/r'') (?us, False) = Inr (?us, False)"
    by simp
  have a3: "makedirs (replace ''/s'' ''/s'' ''/r'') ?us = Inr ?us"
    by (simp add: unreadable_seen_def run_defs)
  have a4: "for_each [''a''] (copy_step ''/s'' (replace ''/s'' ''/s'' ''/r'')) (?us, False)
      = Inr (?uf, True)"
    by (simp add: unreadable_seen_def unreadable_failed_def run_defs)
  have a5: "is_stale ?uf (join ''/s'' ''b'') (join (replace ''/s'' ''/s'' ''/r'') ''b'') = Inr True"
    by (simp add: unreadable_failed_def run_defs)
  have a6: "copy2 (join ''/s'' ''b'') (join (replace ''/s'' ''/s'' ''/r'') ''b'') ?uf
      = Inl (PermissionError, ?uf)"
    by (simp add: unreadable_failed_def run_defs)
  note t1 = failure_ends_the_cycle [where w = ?us and S = "''/s''" and pre = "[]" and rd = "''/s''"
      and ds = "[]" and ?fs1.0 = "[''a'']" and f = "''b''" and ?fs2.0 = "[''c'']" and post = "[]"
      and R = "''/r''" and ?w1.0 = ?us and ?b1.0 = False and ?w2.0 = ?us and ?w3.0 = ?uf
      and ?b3.0 = True and e = PermissionError and ?w4.0 = ?uf]
  have c1: "sync_folders ''/s'' ''/r'' ?us = Inl (PermissionError, ?uf)"
    by (rule t1 [THEN conjunct1, rule_format, OF a1 a2 a3 a4 a5 a6, THEN conjunct1])
  have b1: "detect_events ''/s'' ''/r'' ?u = Inr (?us, ?ev)"
    by (simp add: unreadable_def unreadable_seen_def run_defs)
  have b2: "new_file ?ev \<noteq> [] \<or> file_modified ?ev \<noteq> [] \<or> file_removed ?ev \<noteq> []"
    by simp
  note t2 = failure_ends_the_cycle [where w = ?u and S = "''/s''" and R = "''/r''" and ?w1.0 = ?us
      and ev = ?ev and x = "(PermissionError, ?uf)" and ?md5.0 = stream_digest
      and log_level = "''INFO''"]
  note k2 = t2 [THEN conjunct2, THEN conjunct2, THEN conjunct1, rule_format, OF b1 b2 c1]
  have c2: "check_for_events stream_digest ''/s'' ''/r'' ?u = Inl (PermissionError, ?uf)"
    "cycle stream_digest ''INFO'' ''/s'' ''/r'' ?u = Inl (PermissionError, ?uf)"
    by (rule k2 [THEN conjunct1], rule k2 [THEN conjunct2])
  have d1: "for_each (os_walk ?l ''/s'') (copy_dir ''/s'' ''/r'') (?l, False) = Inr (?l, False)"
    by (simp add: locked_def run_defs)
  have d2: "os_walk ?l ''/r'' =
        [(''/r'', [''d'', ''e''], [''a'', ''gone''])] @ (''/r/d'', [], [] @ ''old'' # [])
          # [(''/r/e'', [], [''late''])]"
    by (simp add: locked_def run_defs)
  have d3: "for_each [(''/r'', [''d'', ''e''], [''a'', ''gone''])] (remove_dir ''/s'' ''/r'') ?l
      = Inr ?lf"
    by (simp add: locked_def locked_failed_def run_defs)
  have d4: "for_each [] (remove_step (replace ''/r/d'' ''/r'' ''/s'') ''/r/d'') ?lf = Inr ?lf"
    by simp
  have d5: "\<not> exists ?lf (join (replace ''/r/d'' ''/r'' ''/s'') ''old'')"
    by (simp add: locked_failed_def run_defs)
  have d6: "os_remove (join ''/r/d'' ''old'') ?lf = Inl (PermissionError, ?lf)"
    by (simp add: locked_failed_def run_defs)
  note t3 = failure_ends_the_cycle [where w = ?l and S = "''/s''" and R = "''/r''" and ?w1.0 = ?l
      and ?b1.0 = False and pre = "[(''/r'', [''d'', ''e''], [''a'', ''gone''])]" and rr = "''/r/d''"
      and ds = "[]" and ?fs1.0 = "[]" and f = "''old''" and ?fs2.0 = "[]"
      and post = "[(''/r/e'', [], [''late''])]" and ?w2.0 = ?lf and ?w3.0 = ?lf
      and e = PermissionError and ?w4.0 = ?lf]
  have c3: "sync_folders ''/s'' ''/r'' ?l = Inl (PermissionError, ?lf)"
    by (rule t3 [THEN conjunct2, THEN conjunct1, rule_format, OF d1 d2 d3 d4 d5 d6, THEN conjunct1])
  have e1: "detect_events ''/s'' ''/r'' ?l = Inr (?l, ?ev')"
    by (simp add: locked_def run_defs)
  have e2: "new_file ?ev' \<noteq> [] \<or> file_modified ?ev' \<noteq> [] \<or> file_removed ?ev' \<noteq> []"
    by simp
  note t4 = failure_ends_the_cycle [where w = ?l and S = "''/s''" and R = "''/r''" and ?w1.0 = ?l
      and ev = ?ev' and x = "(PermissionError, ?lf)" and ?md5.0 = stream_digest
      and log_level = "''INFO''"]
  note k4 = t4 [THEN conjunct2, THEN conjunct2, THEN conjunct1, rule_format, OF e1 e2 c3]
  have c4: "check_for_events stream_digest ''/s'' ''/r'' ?l = Inl (PermissionError, ?lf)"
    "cycle stream_digest ''INFO'' ''/s'' ''/r'' ?l = Inl (PermissionError, ?lf)"
    by (rule k4 [THEN conjunct1], rule k4 [THEN conjunct2])
  have f1: "(''/s'', [], [''a'', ''b'', ''c'']) \<in> set (os_walk ?u ''/s'')"
    by (simp add: unreadable_def run_defs)
  have f2: "''b'' \<in> set [''a'', ''b'', ''c'']"
    by simp
  have f3: "open_rb ?u (join ''/s'' ''b'') = Inl PermissionError"
    by (simp add: unreadable_def run_defs)
  note t5 = failure_ends_the_cycle [where w = ?u and rd = "''/s''" and ds = "[]"
      and fs = "[''a'', ''b'', ''c'']" and folder = "''/s''" and f = "''b''" and e = PermissionError
      and ?md5.0 = stream_digest]
  have c5: "\<exists>e'. get_folder_hash stream_digest ?u ''/s'' = Inl e'"
    by (rule t5 [THEN conjunct2, THEN conjunct2, THEN conjunct2, THEN conjunct1, rule_format,
          OF f1 f2 f3])
  have g1: "os_stat ?h ''/s/priv'' = Inr (Dir 0 False True [(''k'', File ''key'' 100 True)])"
    by (simp add: hidden_def run_defs)
  note t6 = failure_ends_the_cycle [where w = ?h and folder = "''/s/priv''" and m = 0 and wr = True
      and es = "[(''k'', File ''key'' 100 True)]" and ?md5.0 = stream_digest]
  note k6 = t6 [THEN conjunct2, THEN conjunct2, THEN conjunct2, THEN conjunct2, THEN conjunct2,
      rule_format, OF g1]
  have c6: "os_walk ?h ''/s/priv'' = []"
    "get_folder_hash stream_digest ?h ''/s/priv'' = Inr (stream_digest [])"
    by (rule k6 [THEN conjunct1], rule k6 [THEN conjunct2])
  have g2: "os_walk ?h ''/s'' = [(''/s'', [''priv''], [''n''])]"
    by (simp add: hidden_def run_defs)
  from a1 a2 a3 a4 a5 a6 c1 b1 c2 d1 d2 d3 d4 d5 d6 c3 e1 c4 f1 f2 f3 c5 g1 c6 g2 show ?thesis
    by - (intro conjI; assumption)
qed

end
